theory Spec2Isabelle
  imports Main
begin

unbundle bit_operations_syntax

section \<open>A two-pass assembler for a 10-bit word machine\<close>

text \<open>
  The development embeds the assembler's C sources: the base-4 encoder
  (convertToBase4.c), the symbol table (symbol_table.c), the first pass
  (first_pass.c), the second pass (second_pass.c), the macro processor
  (macro_processor.c), the writers of the output files (output_files.c) and the body of
  the loop over the input files of the driver (main.c).

  C strings are \<open>string\<close>s without the terminating NUL, C \<open>int\<close>s are \<open>int\<close>s, a file
  is the text in it, and the global \<open>g_has_error\<close> is a boolean that every function
  which may set it takes and returns. A loop that reads a file line by line is a
  recursive function on the text that is still unread.

  The model describes the executions of the C program that are free of undefined
  behaviour and of failures of the environment: tokens fit the fixed buffers they are
  copied into, decimal numbers fit an \<open>int\<close>, the files hold no NUL character, and
  \<open>malloc\<close> and \<open>fopen\<close> succeed. Diagnostics printed to stderr are not part of the
  state; a warning changes nothing, an error sets the flag.
\<close>

subsection \<open>Constants of assembler.h\<close>

definition MEMORY_START :: int where
  "MEMORY_START = 100"

definition MAX_LINE_LENGTH :: nat where
  "MAX_LINE_LENGTH = 81"

definition MAX_SYMBOL_LENGTH :: nat where
  "MAX_SYMBOL_LENGTH = 31"

definition BASE4_WORD_LENGTH :: nat where
  "BASE4_WORD_LENGTH = 5"

subsection \<open>The C library functions the sources call\<close>

text \<open>Character classes of ctype.h in the C locale.\<close>

definition isspace :: "char \<Rightarrow> bool" where
  "isspace c = (c = CHR '' '' \<or> c = CHR 0x09 \<or> c = CHR 0x0A \<or> c = CHR 0x0B
                \<or> c = CHR 0x0C \<or> c = CHR 0x0D)"

definition isdigit :: "char \<Rightarrow> bool" where
  "isdigit c = (48 \<le> (of_char c :: nat) \<and> (of_char c :: nat) \<le> 57)"

definition isalpha :: "char \<Rightarrow> bool" where
  "isalpha c = ((65 \<le> (of_char c :: nat) \<and> (of_char c :: nat) \<le> 90)
                \<or> (97 \<le> (of_char c :: nat) \<and> (of_char c :: nat) \<le> 122))"

definition isalnum :: "char \<Rightarrow> bool" where
  "isalnum c = (isalpha c \<or> isdigit c)"

text \<open>The value of a run of leading decimal digits, accumulated left to right.\<close>

fun digits_value :: "int \<Rightarrow> string \<Rightarrow> int" where
  "digits_value acc [] = acc"
| "digits_value acc (c # cs) =
     (if isdigit c then digits_value (acc * 10 + (of_char c - 48)) cs else acc)"

text \<open>
  \<open>strtol(s, &endptr, 10)\<close>, which is also what the conversion \<open>%d\<close> of \<open>sscanf\<close> reads:
  optional white space, an optional sign, at least one digit. The result is the value and
  the text after the number, or \<open>None\<close> when there is no number to convert.
\<close>

definition strtol :: "string \<Rightarrow> (int \<times> string) option" where
  "strtol s =
     (case dropWhile isspace s of
        [] \<Rightarrow> None
      | c # cs \<Rightarrow>
          (let negative = (c = CHR ''-'');
               q = (if c = CHR ''-'' \<or> c = CHR ''+'' then cs else c # cs)
           in case q of
                [] \<Rightarrow> None
              | d # ds \<Rightarrow>
                  if isdigit d
                  then Some (if negative then - digits_value 0 q else digits_value 0 q,
                             dropWhile isdigit q)
                  else None))"

definition atoi :: "string \<Rightarrow> int" where
  "atoi s = (case strtol s of None \<Rightarrow> 0 | Some (v, rest) \<Rightarrow> v)"

text \<open>
  \<open>sscanf(s, "%s%n", word, &chars_read)\<close>: the first white-space delimited word and
  the number of characters consumed, \<open>None\<close> when the conversion fails.
\<close>

definition scan_word :: "string \<Rightarrow> (string \<times> nat) option" where
  "scan_word s =
     (let p = dropWhile isspace s;
          w = takeWhile (\<lambda>c. \<not> isspace c) p
      in if w = [] then None else Some (w, (length s - length p) + length w))"

text \<open>
  One call of \<open>strtok_r\<close> on the text that is left: leading delimiters are skipped, the
  token runs to the next delimiter, and the saved position is just after that delimiter.
\<close>

definition strtok_r :: "string \<Rightarrow> string \<Rightarrow> (string \<times> string) option" where
  "strtok_r s delim =
     (let s1 = dropWhile (\<lambda>c. c \<in> set delim) s
      in if s1 = [] then None
         else Some (takeWhile (\<lambda>c. c \<notin> set delim) s1,
                    drop 1 (dropWhile (\<lambda>c. c \<notin> set delim) s1)))"

text \<open>
  \<open>fgets(line, n, input)\<close> on the unread rest of a file: at most \<open>n - 1\<close> characters,
  stopping after a line feed; \<open>None\<close> at end of file.
\<close>

fun fgets_chars :: "nat \<Rightarrow> string \<Rightarrow> string \<times> string" where
  "fgets_chars 0 s = ([], s)"
| "fgets_chars (Suc n) [] = ([], [])"
| "fgets_chars (Suc n) (c # cs) =
     (if c = CHR 0x0A then ([c], cs)
      else (c # fst (fgets_chars n cs), snd (fgets_chars n cs)))"

definition fgets :: "nat \<Rightarrow> string \<Rightarrow> (string \<times> string) option" where
  "fgets n input = (if input = [] then None else Some (fgets_chars (n - 1) input))"

text \<open>\<open>while ((c = fgetc(input)) != '\n' && c != EOF);\<close> drops the rest of a physical line.\<close>

definition skip_rest_of_line :: "string \<Rightarrow> string" where
  "skip_rest_of_line input = drop 1 (dropWhile (\<lambda>c. c \<noteq> CHR 0x0A) input)"

subsection \<open>convertToBase4.c\<close>

definition base4_char :: "int \<Rightarrow> char" where
  "base4_char digit =
     (if digit = 0 then CHR ''a'' else if digit = 1 then CHR ''b''
      else if digit = 2 then CHR ''c'' else CHR ''d'')"

text \<open>
  The loop \<open>for (i = BASE4_LENGTH - 1; i >= 0; i--)\<close> fills \<open>temp\<close> from its last
  position: the digit of the low two bits is put in front of what is already there.
\<close>

fun convert_loop :: "nat \<Rightarrow> int \<Rightarrow> string \<Rightarrow> string" where
  "convert_loop 0 v temp = temp"
| "convert_loop (Suc i) v temp = convert_loop i (drop_bit 2 v) (base4_char (v AND 3) # temp)"

definition convertToBase4 :: "int \<Rightarrow> string" where
  "convertToBase4 v = convert_loop BASE4_WORD_LENGTH (v AND 0x3FF) []"

fun stripLeadingA :: "string \<Rightarrow> string" where
  "stripLeadingA (c # d # cs) = (if c = CHR ''a'' then stripLeadingA (d # cs) else c # d # cs)"
| "stripLeadingA s = s"

text \<open>
  Reading a base-4 rendering back: the sources have no decoder, so the one of the
  specification is written here. \<open>base4_value\<close> reads the digits most significant first;
  \<open>sign_extend10\<close> reads a 10-bit pattern as two's complement.
\<close>

definition base4_digit :: "char \<Rightarrow> int" where
  "base4_digit c =
     (if c = CHR ''a'' then 0 else if c = CHR ''b'' then 1 else if c = CHR ''c'' then 2 else 3)"

definition base4_value :: "string \<Rightarrow> int" where
  "base4_value s = foldl (\<lambda>acc c. acc * 4 + base4_digit c) 0 s"

definition sign_extend10 :: "int \<Rightarrow> int" where
  "sign_extend10 v = (if 512 \<le> v then v - 1024 else v)"

subsection \<open>first_pass.c: lexical helpers\<close>

definition skip_whitespace :: "string \<Rightarrow> string" where
  "skip_whitespace s = dropWhile isspace s"

text \<open>\<open>strtol\<close> must consume the whole of a non-empty string.\<close>

definition is_valid_number :: "string \<Rightarrow> bool" where
  "is_valid_number s =
     (if s = [] then False
      else case strtol s of None \<Rightarrow> False | Some (v, endptr) \<Rightarrow> endptr = [])"

definition opcodes :: "string list" where
  "opcodes = [''mov'', ''cmp'', ''add'', ''sub'', ''not'', ''clr'', ''lea'', ''inc'', ''dec'',
              ''jmp'', ''bne'', ''red'', ''prn'', ''jsr'', ''rts'', ''stop'']"

definition is_opcode :: "string \<Rightarrow> bool" where
  "is_opcode s = (s \<in> set opcodes)"

definition is_register :: "string \<Rightarrow> bool" where
  "is_register s =
     (case s of
        [r, d] \<Rightarrow>
          if r = CHR ''r'' \<and> isdigit d
          then (let reg_num = atoi [d] in 0 \<le> reg_num \<and> reg_num \<le> 7)
          else False
      | _ \<Rightarrow> False)"

definition is_valid_label :: "string \<Rightarrow> bool" where
  "is_valid_label s =
     (case s of
        [] \<Rightarrow> False
      | c # cs \<Rightarrow>
          if MAX_SYMBOL_LENGTH \<le> length s then False
          else if isalpha c then list_all isalnum cs
          else False)"

subsection \<open>second_pass.c: encoding tables\<close>

text \<open>
  \<open>trim_whitespace\<close> removes leading white space and then trailing white space; the
  first character that is left is never white space, so the backwards scan stops there.
\<close>

definition trim_whitespace :: "string \<Rightarrow> string" where
  "trim_whitespace str = rev (dropWhile isspace (rev (dropWhile isspace str)))"

definition get_opcode_base4 :: "string \<Rightarrow> string" where
  "get_opcode_base4 opcode_str =
     (if opcode_str = ''mov'' then ''aa''
      else if opcode_str = ''cmp'' then ''ab''
      else if opcode_str = ''add'' then ''ac''
      else if opcode_str = ''sub'' then ''ad''
      else if opcode_str = ''not'' then ''ba''
      else if opcode_str = ''clr'' then ''bb''
      else if opcode_str = ''lea'' then ''bc''
      else if opcode_str = ''inc'' then ''bd''
      else if opcode_str = ''dec'' then ''ca''
      else if opcode_str = ''jmp'' then ''cb''
      else if opcode_str = ''bne'' then ''cc''
      else if opcode_str = ''red'' then ''cd''
      else if opcode_str = ''prn'' then ''da''
      else if opcode_str = ''jsr'' then ''db''
      else if opcode_str = ''rts'' then ''dc''
      else if opcode_str = ''stop'' then ''dd''
      else ''aaaa'')"

text \<open>The addressing mode of an operand, as its base-4 digit.\<close>

definition get_addressing_mode_base4 :: "string \<Rightarrow> char" where
  "get_addressing_mode_base4 operand_str =
     (case operand_str of
        [] \<Rightarrow> CHR ''a''
      | c # cs \<Rightarrow>
          if c = CHR ''#'' then CHR ''a''
          else if is_register operand_str then CHR ''d''
          else if CHR ''['' \<in> set operand_str then CHR ''c''
          else CHR ''b'')"

definition get_register_base4 :: "string \<Rightarrow> string" where
  "get_register_base4 reg_str =
     (if is_register reg_str
      then (let reg_num = atoi (drop 1 reg_str)
            in if reg_num = 0 then ''aa'' else if reg_num = 1 then ''ab''
               else if reg_num = 2 then ''ac'' else if reg_num = 3 then ''ad''
               else if reg_num = 4 then ''ba'' else if reg_num = 5 then ''bb''
               else if reg_num = 6 then ''bc'' else if reg_num = 7 then ''bd''
               else ''aa'')
      else ''aa'')"

text \<open>
  \<open>encode_matrix_registers\<close>: two register pairs have a hard-coded word; every other
  pair is laid out in bits and rendered digit by digit, most significant first.
\<close>

definition encode_matrix_registers :: "int \<Rightarrow> int \<Rightarrow> string" where
  "encode_matrix_registers row_reg col_reg =
     (if row_reg = 2 \<and> col_reg = 7 then ''cabbc''
      else if row_reg = 3 \<and> col_reg = 3 then ''adada''
      else (let encoded = (push_bit 6 (row_reg AND 0xF)) OR (push_bit 2 (col_reg AND 0xF)) OR 0
            in map (\<lambda>i. base4_char (drop_bit (i * 2) encoded AND 3)) [4, 3, 2, 1, 0]))"

text \<open>
  The two \<open>sscanf\<close> calls on a matrix operand. \<open>scan_matrix_label\<close> is
  \<open>sscanf(op, "%[^[][r%*d][r%*d]", matrix_label) == 1\<close>: it succeeds as soon as the
  operand has a non-empty part before its first bracket, which is the label.
  \<open>scan_matrix_regs\<close> is \<open>sscanf(op, "%*[^[][r%d][r%d]", &m, &n) == 2\<close>: both
  register numbers must be read; the bracket that closes the second one is not looked at.
\<close>

definition scan_matrix_label :: "string \<Rightarrow> string option" where
  "scan_matrix_label op =
     (let matrix_label = takeWhile (\<lambda>c. c \<noteq> CHR ''['') op
      in if matrix_label = [] then None else Some matrix_label)"

definition scan_matrix_regs :: "string \<Rightarrow> (int \<times> int) option" where
  "scan_matrix_regs op =
     (if takeWhile (\<lambda>c. c \<noteq> CHR ''['') op = [] then None
      else case dropWhile (\<lambda>c. c \<noteq> CHR ''['') op of
             b1 # r1 # rest1 \<Rightarrow>
               if b1 = CHR ''['' \<and> r1 = CHR ''r''
               then (case strtol rest1 of
                       None \<Rightarrow> None
                     | Some (m, rest2) \<Rightarrow>
                         (case rest2 of
                            b2 # b3 # r2 # rest3 \<Rightarrow>
                              if b2 = CHR '']'' \<and> b3 = CHR ''['' \<and> r2 = CHR ''r''
                              then (case strtol rest3 of
                                      None \<Rightarrow> None
                                    | Some (n, rest4) \<Rightarrow> Some (m, n))
                              else None
                          | _ \<Rightarrow> None))
               else None
           | _ \<Rightarrow> None)"

subsection \<open>first_pass.c: instruction length and operand legality\<close>

text \<open>
  The words an operand adds to an instruction and whether it is a register, as both
  operand blocks of \<open>calculate_instruction_length\<close> compute them; \<open>None\<close> is the
  \<open>return -1\<close> for a malformed matrix operand.
\<close>

definition operand_extra_words :: "string \<Rightarrow> (bool \<times> int) option" where
  "operand_extra_words op =
     (if (case op of [] \<Rightarrow> False | c # cs \<Rightarrow> c = CHR ''#'') then Some (False, 1)
      else if CHR ''['' \<in> set op
           then (case scan_matrix_regs op of None \<Rightarrow> None | Some mn \<Rightarrow> Some (False, 2))
      else if is_register op then Some (True, 1)
      else Some (False, 1))"

definition calculate_instruction_length :: "string \<Rightarrow> string \<Rightarrow> string \<Rightarrow> int" where
  "calculate_instruction_length opcode op1 op2 =
     (let num_operands_parsed = (if op1 = [] then 0 else 1) + (if op2 = [] then 0 else (1::int));
          expected_operands =
            (if opcode = ''rts'' \<or> opcode = ''stop'' then 0
             else if opcode \<in> set [''not'', ''clr'', ''inc'', ''dec'', ''jmp'', ''bne'', ''jsr'',
                                     ''red'', ''prn''] then 1
             else if opcode \<in> set [''mov'', ''cmp'', ''add'', ''sub'', ''lea''] then 2
             else - 1)
      in if expected_operands = - 1 \<or> expected_operands \<noteq> num_operands_parsed then - 1
         else case (if 1 \<le> num_operands_parsed then operand_extra_words op1
                    else Some (False, 0)) of
                None \<Rightarrow> - 1
              | Some (op1_is_reg, op1_extra_words) \<Rightarrow>
                  (case (if num_operands_parsed = 2 then operand_extra_words op2
                         else Some (False, 0)) of
                     None \<Rightarrow> - 1
                   | Some (op2_is_reg, op2_extra_words) \<Rightarrow>
                       if op1_is_reg \<and> op2_is_reg then 1 + 1
                       else (let length = 1 + op1_extra_words + op2_extra_words
                             in if 5 < length then - 1 else length)))"

text \<open>
  The table of legal addressing modes, one row per opcode in the order of
  \<open>opcode_num\<close>: source modes, destination modes, \<open>X\<close> for no operand.
\<close>

definition legal_modes :: "(string \<times> string) list" where
  "legal_modes =
     [(''abcd'', ''bcd''), (''abcd'', ''abcd''), (''abcd'', ''bcd''), (''abcd'', ''bcd''),
      (''X'', ''bcd''), (''X'', ''bcd''), (''bc'', ''bcd''), (''X'', ''bcd''),
      (''X'', ''bcd''), (''X'', ''bc''), (''X'', ''bc''), (''X'', ''bcd''),
      (''X'', ''abcd''), (''X'', ''bc''), (''X'', ''X''), (''X'', ''X'')]"

definition opcode_num :: "string \<Rightarrow> nat option" where
  "opcode_num opcode =
     (if opcode = ''mov'' then Some 0 else if opcode = ''cmp'' then Some 1
      else if opcode = ''add'' then Some 2 else if opcode = ''sub'' then Some 3
      else if opcode = ''not'' then Some 4 else if opcode = ''clr'' then Some 5
      else if opcode = ''lea'' then Some 6 else if opcode = ''inc'' then Some 7
      else if opcode = ''dec'' then Some 8 else if opcode = ''jmp'' then Some 9
      else if opcode = ''bne'' then Some 10 else if opcode = ''red'' then Some 11
      else if opcode = ''prn'' then Some 12 else if opcode = ''jsr'' then Some 13
      else if opcode = ''rts'' then Some 14 else if opcode = ''stop'' then Some 15
      else None)"

text \<open>
  \<open>validate_instruction_operands\<close> returns 0 exactly on the paths that set
  \<open>g_has_error\<close>, and leaves the flag alone when it returns 1; the model returns the
  result and its callers set the flag on \<open>False\<close>.
\<close>

definition validate_instruction_operands :: "string \<Rightarrow> string \<Rightarrow> string \<Rightarrow> nat \<Rightarrow> bool" where
  "validate_instruction_operands opcode op1 op2 num_ops =
     (let actual_src_mode_char = get_addressing_mode_base4 op1;
          actual_dest_mode_char = get_addressing_mode_base4 op2
      in case opcode_num opcode of
           None \<Rightarrow> False
         | Some n \<Rightarrow>
             if length legal_modes \<le> n then False
             else (let src_modes = fst (legal_modes ! n);
                       dest_modes = snd (legal_modes ! n);
                       expected_operands =
                         (if src_modes = ''X'' then 0 else 1) + (if dest_modes = ''X'' then 0 else (1::nat))
                   in if expected_operands = num_ops
                      then (if num_ops = 2
                            then actual_src_mode_char \<in> set src_modes
                                 \<and> actual_dest_mode_char \<in> set dest_modes
                            else if num_ops = 1
                            then actual_src_mode_char \<in> set dest_modes
                            else True)
                      else False))"

subsection \<open>symbol_table.c\<close>

datatype SymbolType = SYMBOL_CODE | SYMBOL_DATA | SYMBOL_EXTERNAL | SYMBOL_ENTRY

text \<open>
  A \<open>Symbol\<close> node; the linked list of \<open>ExternalUsage\<close> nodes it owns is the list of
  their addresses, head first. The symbol table is the list of its nodes, head first, and
  a pointer to a node is its position in that list.
\<close>

record Symbol =
  sym_name :: string
  sym_address :: int
  sym_type :: SymbolType
  external_usages :: "int list"

fun findSymbol :: "Symbol list \<Rightarrow> string \<Rightarrow> nat option" where
  "findSymbol [] name = None"
| "findSymbol (current # rest) name =
     (if sym_name current = name then Some 0
      else case findSymbol rest name of None \<Rightarrow> None | Some i \<Rightarrow> Some (Suc i))"

text \<open>
  \<open>addSymbol\<close> returns the table and the error flag. Every \<open>return\<close> of the C function
  is one result below, in the order of the source.
\<close>

definition addSymbol ::
  "Symbol list \<Rightarrow> string \<Rightarrow> int \<Rightarrow> SymbolType \<Rightarrow> bool \<Rightarrow> Symbol list \<times> bool" where
  "addSymbol head name address type g =
     (let newSymbol = \<lparr>sym_name = take (MAX_SYMBOL_LENGTH - 1) name, sym_address = address,
                        sym_type = type, external_usages = []\<rparr>
      in if is_opcode name \<or> is_register name then (head, True)
         else if is_valid_label name
         then (case findSymbol head name of
                 None \<Rightarrow> (newSymbol # head, g)
               | Some i \<Rightarrow>
                   (let existingSymbol = head ! i
                    in if type = SYMBOL_EXTERNAL
                       then (if sym_type existingSymbol = SYMBOL_CODE
                                \<or> sym_type existingSymbol = SYMBOL_DATA then (head, True)
                             else if sym_type existingSymbol = SYMBOL_ENTRY then (head, True)
                             else (head, g))
                       else if type = SYMBOL_ENTRY
                       then (if sym_type existingSymbol = SYMBOL_EXTERNAL then (head, True)
                             else (head[i := existingSymbol\<lparr>sym_type := SYMBOL_ENTRY\<rparr>], g))
                       else (if sym_type existingSymbol = SYMBOL_CODE
                                \<or> sym_type existingSymbol = SYMBOL_DATA then (head, True)
                             else if sym_type existingSymbol = SYMBOL_EXTERNAL then (head, True)
                             else if sym_type existingSymbol = SYMBOL_ENTRY
                             then (if sym_address existingSymbol = 0
                                   then (head[i := existingSymbol\<lparr>sym_address := address\<rparr>], g)
                                   else (head, True))
                             else (newSymbol # head, g))))
         else (head, True))"

definition updateDataSymbolsAddresses :: "Symbol list \<Rightarrow> int \<Rightarrow> Symbol list" where
  "updateDataSymbolsAddresses head icf =
     map (\<lambda>current.
            if sym_type current = SYMBOL_DATA
            then current\<lparr>sym_address := sym_address current + icf\<rparr>
            else if sym_type current = SYMBOL_ENTRY \<and> sym_address current < MEMORY_START
            then current\<lparr>sym_address := sym_address current + icf\<rparr>
            else current) head"

text \<open>\<open>addExternalUsage\<close> on the node at position \<open>i\<close>: the new usage becomes the head.\<close>

definition addExternalUsage :: "Symbol list \<Rightarrow> nat \<Rightarrow> int \<Rightarrow> bool \<Rightarrow> Symbol list \<times> bool" where
  "addExternalUsage symTab i address g =
     (let sym = symTab ! i
      in if sym_type sym = SYMBOL_EXTERNAL
         then (symTab[i := sym\<lparr>external_usages := address # external_usages sym\<rparr>], g)
         else (symTab, True))"

subsection \<open>second_pass.c: encoding an instruction\<close>

record Instruction =
  inst_address :: int
  original_line_number :: int
  opcode :: string
  num_operands :: nat
  operand1 :: string
  operand2 :: string
  instruction_length :: int
  machine_code_base4 :: string
  operand_words_base4 :: "string list"
  num_operand_words :: nat

text \<open>
  The code for an operand that is a direct label (mode \<open>b\<close>) or a matrix (mode \<open>c\<close>);
  the source has it twice, for operand 1 and for operand 2, differing only in the text
  of a diagnostic. \<open>Inl\<close> is a \<open>return\<close> after \<open>g_has_error = 1\<close>, with what has been
  written so far; \<open>Inr\<close> goes on with the index of the next operand word.
\<close>

definition encode_label_operand ::
  "char \<Rightarrow> string \<Rightarrow> Instruction \<Rightarrow> Symbol list \<Rightarrow> bool \<Rightarrow> nat
   \<Rightarrow> (Instruction \<times> Symbol list) + (Instruction \<times> Symbol list \<times> bool \<times> nat)" where
  "encode_label_operand mode operand inst symTab g current_operand_word_idx =
     (case (if mode = CHR ''c'' then scan_matrix_label operand else Some operand) of
        None \<Rightarrow> Inl (inst, symTab)
      | Some label_to_find \<Rightarrow>
          (case findSymbol symTab label_to_find of
             None \<Rightarrow> Inl (inst, symTab)
           | Some i \<Rightarrow>
               (let sym = symTab ! i;
                    base4_val_str = convertToBase4 (sym_address sym);
                    are_char = (if sym_type sym = SYMBOL_EXTERNAL then CHR ''b'' else CHR ''c'');
                    used = (if are_char = CHR ''b''
                            then addExternalUsage symTab i
                                   (inst_address inst + int current_operand_word_idx + 1) g
                            else (symTab, g));
                    inst1 = inst\<lparr>operand_words_base4 :=
                              (operand_words_base4 inst)[current_operand_word_idx :=
                                 take (BASE4_WORD_LENGTH - 1) base4_val_str @ [are_char]]\<rparr>;
                    idx1 = current_operand_word_idx + 1
                in if mode = CHR ''c''
                   then (case scan_matrix_regs operand of
                           None \<Rightarrow> Inl (inst1, fst used)
                         | Some (reg1_num, reg2_num) \<Rightarrow>
                             if reg1_num < 0 \<or> 7 < reg1_num \<or> reg2_num < 0 \<or> 7 < reg2_num
                             then Inl (inst1, fst used)
                             else Inr (inst1\<lparr>operand_words_base4 :=
                                         (operand_words_base4 inst1)[idx1 :=
                                            encode_matrix_registers reg1_num reg2_num]\<rparr>,
                                       fst used, snd used, idx1 + 1))
                   else Inr (inst1, fst used, snd used, idx1))))"

text \<open>
  Operand 1. The last component of an \<open>Inr\<close> result is \<open>registers_shared_word\<close>.
\<close>

definition encode_operand1 ::
  "char \<Rightarrow> Instruction \<Rightarrow> Symbol list \<Rightarrow> bool
   \<Rightarrow> (Instruction \<times> Symbol list) + (Instruction \<times> Symbol list \<times> bool \<times> nat \<times> bool)" where
  "encode_operand1 src_addr_mode_char inst symTab g =
     (if 1 \<le> num_operands inst
      then (if src_addr_mode_char = CHR ''d'' \<and> num_operands inst = 2
               \<and> get_addressing_mode_base4 (operand2 inst) = CHR ''d''
            then (let src_reg_base4 = get_register_base4 (operand1 inst);
                      dest_reg_base4 = get_register_base4 (operand2 inst)
                  in Inr (inst\<lparr>operand_words_base4 := (operand_words_base4 inst)[0 :=
                             [src_reg_base4 ! 0, src_reg_base4 ! 1,
                              dest_reg_base4 ! 0, dest_reg_base4 ! 1, CHR ''a'']]\<rparr>,
                          symTab, g, 1, True))
            else if src_addr_mode_char = CHR ''a''
            then (let value = atoi (drop 1 (operand1 inst))
                  in if value < - 512 \<or> 511 < value then Inl (inst, symTab)
                     else Inr (inst\<lparr>operand_words_base4 := (operand_words_base4 inst)[0 :=
                                  take (BASE4_WORD_LENGTH - 1) (convertToBase4 value) @ ''a'']\<rparr>,
                               symTab, g, 1, False))
            else if src_addr_mode_char = CHR ''d''
            then (let reg_base4 = get_register_base4 (operand1 inst)
                  in Inr (inst\<lparr>operand_words_base4 := (operand_words_base4 inst)[0 :=
                             [reg_base4 ! 0, reg_base4 ! 1] @ ''aaa'']\<rparr>,
                          symTab, g, 1, False))
            else if src_addr_mode_char = CHR ''b'' \<or> src_addr_mode_char = CHR ''c''
            then (case encode_label_operand src_addr_mode_char (operand1 inst) inst symTab g 0 of
                    Inl stopped \<Rightarrow> Inl stopped
                  | Inr (inst1, symTab1, g1, idx1) \<Rightarrow> Inr (inst1, symTab1, g1, idx1, False))
            else Inr (inst, symTab, g, 0, False))
      else Inr (inst, symTab, g, 0, False))"

text \<open>Operand 2, entered when there are two operands that do not share a word.\<close>

definition encode_operand2 ::
  "Instruction \<Rightarrow> Symbol list \<Rightarrow> bool \<Rightarrow> nat
   \<Rightarrow> (Instruction \<times> Symbol list) + (Instruction \<times> Symbol list \<times> bool \<times> nat)" where
  "encode_operand2 inst symTab g current_operand_word_idx =
     (let op2 = operand2 inst;
          dest_addr_mode_char = get_addressing_mode_base4 op2
      in if dest_addr_mode_char = CHR ''a''
         then (let value = atoi (drop 1 op2)
               in if value < - 512 \<or> 511 < value then Inl (inst, symTab)
                  else Inr (inst\<lparr>operand_words_base4 :=
                               (operand_words_base4 inst)[current_operand_word_idx :=
                                  take (BASE4_WORD_LENGTH - 1) (convertToBase4 value) @ ''a'']\<rparr>,
                            symTab, g, current_operand_word_idx + 1))
         else if dest_addr_mode_char = CHR ''d''
         then (let reg_base4 = get_register_base4 op2
               in Inr (inst\<lparr>operand_words_base4 :=
                          (operand_words_base4 inst)[current_operand_word_idx :=
                             ''aa'' @ [reg_base4 ! 0, reg_base4 ! 1] @ ''a'']\<rparr>,
                       symTab, g, current_operand_word_idx + 1))
         else if dest_addr_mode_char = CHR ''b'' \<or> dest_addr_mode_char = CHR ''c''
         then encode_label_operand dest_addr_mode_char op2 inst symTab g current_operand_word_idx
         else Inr (inst, symTab, g, current_operand_word_idx))"

text \<open>
  Steps 6 and 7 of \<open>encode_instruction_words\<close>: the operand words, then the check of
  the number of words against the length of the first pass.
\<close>

definition encode_operand_words ::
  "char \<Rightarrow> Instruction \<Rightarrow> Symbol list \<Rightarrow> bool \<Rightarrow> Instruction \<times> Symbol list \<times> bool" where
  "encode_operand_words src_addr_mode_char inst symTab g =
     (case encode_operand1 src_addr_mode_char inst symTab g of
        Inl (inst3, symTab3) \<Rightarrow> (inst3, symTab3, True)
      | Inr (inst3, symTab3, g3, idx3, registers_shared_word) \<Rightarrow>
          (case (if num_operands inst3 = 2 \<and> \<not> registers_shared_word
                 then encode_operand2 inst3 symTab3 g3 idx3
                 else Inr (inst3, symTab3, g3, idx3)) of
             Inl (inst4, symTab4) \<Rightarrow> (inst4, symTab4, True)
           | Inr (inst4, symTab4, g4, idx4) \<Rightarrow>
               (let inst5 = inst4\<lparr>num_operand_words := idx4\<rparr>
                in (inst5, symTab4,
                    (if int (num_operand_words inst5) + 1 = instruction_length inst5
                     then g4 else True)))))"

text \<open>
  Steps 1 to 5: the opcode must be known, the operands are trimmed, their modes are
  read, the operands are validated again, and the opcode word is built from the two
  digits of the opcode, the digit of \<open>src_addr_mode_char\<close>, the digit of
  \<open>dest_addr_mode_char\<close> and the digit \<open>a\<close>.
\<close>

definition encode_instruction_words ::
  "Instruction \<Rightarrow> Symbol list \<Rightarrow> bool \<Rightarrow> Instruction \<times> Symbol list \<times> bool" where
  "encode_instruction_words inst symTab g =
     (let opcode_base4_str = get_opcode_base4 (opcode inst)
      in if opcode_base4_str = ''aaaa'' then (inst, symTab, True)
         else
           (let inst1 = inst\<lparr>operand1 := trim_whitespace (operand1 inst),
                              operand2 := trim_whitespace (operand2 inst)\<rparr>;
                src_addr_mode_char =
                  (if 1 \<le> num_operands inst1 then get_addressing_mode_base4 (operand1 inst1)
                   else CHR ''a'');
                dest_addr_mode_char =
                  (if num_operands inst1 = 2 then get_addressing_mode_base4 (operand2 inst1)
                   else CHR ''a'')
            in if validate_instruction_operands (opcode inst1) (operand1 inst1) (operand2 inst1)
                    (num_operands inst1)
               then encode_operand_words src_addr_mode_char
                      (inst1\<lparr>machine_code_base4 :=
                                [opcode_base4_str ! 0, opcode_base4_str ! 1,
                                 src_addr_mode_char, dest_addr_mode_char, CHR ''a''],
                              num_operand_words := 0\<rparr>)
                      symTab g
               else (inst1, symTab, True)))"

text \<open>
  \<open>secondPass\<close>: the loop over the instruction list, then the loop over the symbol table
  that looks for entries whose address is still 0. The result is the return value, the
  encoded instructions, the symbol table and the error flag.
\<close>

fun encode_all ::
  "Instruction list \<Rightarrow> Symbol list \<Rightarrow> bool \<Rightarrow> Instruction list \<times> Symbol list \<times> bool" where
  "encode_all [] symTab g = ([], symTab, g)"
| "encode_all (cur_inst # rest) symTab g =
     (case encode_instruction_words cur_inst symTab g of
        (cur_inst1, symTab1, g1) \<Rightarrow>
          (case encode_all rest symTab1 g1 of
             (rest2, symTab2, g2) \<Rightarrow> (cur_inst1 # rest2, symTab2, g2)))"

fun check_entries :: "Symbol list \<Rightarrow> bool \<Rightarrow> bool" where
  "check_entries [] g = g"
| "check_entries (sym_iter # rest) g =
     check_entries rest
       (if sym_type sym_iter = SYMBOL_ENTRY \<and> sym_address sym_iter = 0 then True else g)"

definition secondPass ::
  "Instruction list \<Rightarrow> Symbol list \<Rightarrow> bool
   \<Rightarrow> bool \<times> Instruction list \<times> Symbol list \<times> bool" where
  "secondPass instructionList symTab g =
     (case encode_all instructionList symTab g of
        (instructions, symTab1, g1) \<Rightarrow>
          (let g2 = check_entries symTab1 g1 in (\<not> g2, instructions, symTab1, g2)))"

subsection \<open>first_pass.c: data directives\<close>

record DataItem =
  data_address :: int
  data_value :: int

text \<open>
  The state of the first pass: the symbol table, the two lists that are built in
  reverse, the counters, the error flag and the line number.
\<close>

record fp_state =
  symTab :: "Symbol list"
  temp_i_head :: "Instruction list"
  temp_d_head :: "DataItem list"
  IC :: int
  DC :: int
  g_has_error :: bool
  lineNumber :: int

text \<open>Appending a data word at the current \<open>DC\<close>, as every data directive does.\<close>

definition add_data :: "int \<Rightarrow> fp_state \<Rightarrow> fp_state" where
  "add_data v st =
     st\<lparr>temp_d_head := \<lparr>data_address = DC st, data_value = v\<rparr> # temp_d_head st,
        DC := DC st + 1\<rparr>"

text \<open>
  The \<open>strtok_r\<close> loop of \<open>validate_data_parameters\<close>; the boolean is \<open>success\<close>.
\<close>

function data_loop :: "string \<Rightarrow> bool \<Rightarrow> fp_state \<Rightarrow> bool \<times> fp_state" where
  "data_loop rest success st =
     (case strtok_r rest '','' of
        None \<Rightarrow> (success, st)
      | Some (token, rest1) \<Rightarrow>
          (let trimmed = takeWhile (\<lambda>c. c \<noteq> CHR '' '' \<and> c \<noteq> CHR 0x09) (skip_whitespace token)
           in if trimmed = [] then data_loop rest1 False st
              else if is_valid_number trimmed
              then (let v = atoi trimmed
                    in if v < - 512 \<or> 511 < v then data_loop rest1 False st
                       else data_loop rest1 success (add_data v st))
              else data_loop rest1 False st))"
  by pat_completeness auto
termination
proof (relation "measure (\<lambda>(rest, success, st). length rest)")
  show "wf (measure (\<lambda>(rest, success, st). length rest))" by simp
next
  have shorter: "length rest1 < length rest"
    if "strtok_r rest '','' = Some (token, rest1)" for rest token rest1
  proof -
    define s1 where "s1 = dropWhile (\<lambda>c. c \<in> set '','') rest"
    from that have ne: "s1 \<noteq> []" and r: "rest1 = drop 1 (dropWhile (\<lambda>c. c \<notin> set '','') s1)"
      by (auto simp: strtok_r_def Let_def s1_def split: if_splits)
    have "length rest1 < length s1"
    proof (cases "dropWhile (\<lambda>c. c \<notin> set '','') s1")
      case Nil
      from r have "rest1 = []" unfolding Nil by simp
      with ne show ?thesis by simp
    next
      case (Cons a as)
      have "length (dropWhile (\<lambda>c. c \<notin> set '','') s1) \<le> length s1"
        by (rule length_dropWhile_le)
      with Cons r show ?thesis by simp
    qed
    moreover have "length s1 \<le> length rest"
      unfolding s1_def by (rule length_dropWhile_le)
    ultimately show ?thesis by simp
  qed
  fix rest :: string and success :: bool and st :: fp_state and x2 x1 x2a xa
  assume "strtok_r rest '','' = Some x2" "(x1, x2a) = x2"
  then have "length x2a < length rest" using shorter [of rest x1 x2a] by simp
  then show "((x2a, False, st), rest, success, st) \<in> measure (\<lambda>(rest, success, st). length rest)"
    by simp
  show "((x2a, False, st), rest, success, st) \<in> measure (\<lambda>(rest, success, st). length rest)"
    using \<open>length x2a < length rest\<close> by simp
  show "((x2a, success, add_data xa st), rest, success, st)
        \<in> measure (\<lambda>(rest, success, st). length rest)"
    using \<open>length x2a < length rest\<close> by simp
  show "((x2a, False, st), rest, success, st) \<in> measure (\<lambda>(rest, success, st). length rest)"
    using \<open>length x2a < length rest\<close> by simp
qed

declare data_loop.simps [simp del]

text \<open>
  The three validators return 0 or 1 only for the caller to \<open>continue\<close>, which ends
  the loop body that ends anyway; the model returns the state.
\<close>

definition validate_data_parameters :: "string \<Rightarrow> fp_state \<Rightarrow> fp_state" where
  "validate_data_parameters params_str st =
     (let rest = skip_whitespace params_str
      in case rest of
           [] \<Rightarrow> st\<lparr>g_has_error := True\<rparr>
         | c # cs \<Rightarrow>
             (case (if c = CHR '','' then data_loop cs False st else data_loop rest True st) of
                (success, st1) \<Rightarrow> if success then st1 else st1\<lparr>g_has_error := True\<rparr>))"

text \<open>A \<open>char\<close> read as an \<open>int\<close>: the type is signed on the platforms the project names.\<close>

definition char_value :: "char \<Rightarrow> int" where
  "char_value c = (if (of_char c :: int) < 128 then of_char c else of_char c - 256)"

definition validate_string_parameters :: "string \<Rightarrow> fp_state \<Rightarrow> fp_state" where
  "validate_string_parameters params_str st =
     (case skip_whitespace params_str of
        [] \<Rightarrow> st\<lparr>g_has_error := True\<rparr>
      | q # body \<Rightarrow>
          if q = CHR 0x22
          then (if CHR 0x22 \<in> set body
                then (let after_end = rev (takeWhile (\<lambda>c. c \<noteq> CHR 0x22) (rev body));
                          str_content = rev (drop 1 (dropWhile (\<lambda>c. c \<noteq> CHR 0x22) (rev body)))
                      in if skip_whitespace after_end = []
                         then add_data 0 (fold (\<lambda>c. add_data (char_value c)) str_content st)
                         else st\<lparr>g_has_error := True\<rparr>)
                else st\<lparr>g_has_error := True\<rparr>)
          else st\<lparr>g_has_error := True\<rparr>)"

text \<open>
  \<open>sscanf(s, " [ %d ] [ %d ]%n", &rows, &cols, &read_count_dims) == 2\<close>, with the text
  after the characters it read. When the bracket that closes the second dimension is
  missing the source goes on with \<open>read_count_dims\<close> uninitialised; the model takes the
  error exit there.
\<close>

definition scan_mat_dims :: "string \<Rightarrow> (int \<times> int \<times> string) option" where
  "scan_mat_dims s =
     (case skip_whitespace s of
        [] \<Rightarrow> None
      | c1 # s1 \<Rightarrow>
          if c1 = CHR ''[''
          then (case strtol s1 of
                  None \<Rightarrow> None
                | Some (rows, s2) \<Rightarrow>
                    (case skip_whitespace s2 of
                       [] \<Rightarrow> None
                     | c2 # s3 \<Rightarrow>
                         if c2 = CHR '']''
                         then (case skip_whitespace s3 of
                                 [] \<Rightarrow> None
                               | c3 # s4 \<Rightarrow>
                                   if c3 = CHR ''[''
                                   then (case strtol s4 of
                                           None \<Rightarrow> None
                                         | Some (cols, s5) \<Rightarrow>
                                             (case skip_whitespace s5 of
                                                [] \<Rightarrow> None
                                              | c4 # s6 \<Rightarrow>
                                                  if c4 = CHR '']'' then Some (rows, cols, s6)
                                                  else None))
                                   else None)
                         else None))
          else None)"

text \<open>
  One turn of the loop over the initial values of a matrix, in two halves.
  \<open>mat_value\<close> reads the number at \<open>num_start_ptr\<close>: an optional sign, digits, the
  checks of its length, format and range; \<open>None\<close> is a \<open>break\<close> with \<open>success = 0\<close>.
  \<open>mat_separator\<close> looks at what follows the number: the end of the text, or one comma
  followed by more text that is not a comma; \<open>None\<close> is again such a \<open>break\<close>.
\<close>

definition mat_value :: "string \<Rightarrow> (int \<times> string) option" where
  "mat_value num_start =
     (let after_sign = (case num_start of
                          [] \<Rightarrow> []
                        | c # cs \<Rightarrow> if c = CHR ''+'' \<or> c = CHR ''-'' then cs else num_start)
      in case after_sign of
           [] \<Rightarrow> None
         | d # ds \<Rightarrow>
             if isdigit d
             then (let num_end = dropWhile isdigit after_sign;
                       num_len = length num_start - length num_end;
                       num_str_val = take num_len num_start
                   in if num_len = 0 \<or> MAX_LINE_LENGTH \<le> num_len then None
                      else if is_valid_number num_str_val
                      then (let v = atoi num_str_val
                            in if v < - 512 \<or> 511 < v then None else Some (v, num_end))
                      else None)
             else None)"

definition mat_separator :: "string \<Rightarrow> string option" where
  "mat_separator num_end =
     (case skip_whitespace num_end of
        [] \<Rightarrow> Some []
      | e # es \<Rightarrow>
          if e = CHR '',''
          then (case skip_whitespace es of
                  [] \<Rightarrow> None
                | f # fs \<Rightarrow> if f = CHR '','' then None else Some (f # fs))
          else None)"

text \<open>
  The loop itself. Its first argument is \<open>numCells - count_initialized_values\<close>, which
  every turn that stores a value lowers by one; the result is \<open>success\<close>, the cells
  still to fill, and the state.
\<close>

fun mat_loop :: "nat \<Rightarrow> string \<Rightarrow> fp_state \<Rightarrow> bool \<times> nat \<times> fp_state" where
  "mat_loop 0 num_start st = (True, 0, st)"
| "mat_loop (Suc k) num_start st =
     (if num_start = [] then (True, Suc k, st)
      else case mat_value num_start of
             None \<Rightarrow> (False, Suc k, st)
           | Some (v, num_end) \<Rightarrow>
               (case mat_separator num_end of
                  None \<Rightarrow> (False, k, add_data v st)
                | Some next_start \<Rightarrow> mat_loop k next_start (add_data v st)))"

definition validate_mat_parameters :: "string \<Rightarrow> fp_state \<Rightarrow> fp_state" where
  "validate_mat_parameters params_str st =
     (case scan_mat_dims (skip_whitespace params_str) of
        None \<Rightarrow> st\<lparr>g_has_error := True\<rparr>
      | Some (rows, cols, after_dims) \<Rightarrow>
          if rows \<le> 0 \<or> cols \<le> 0 then st\<lparr>g_has_error := True\<rparr>
          else (let numCells = nat (rows * cols);
                    current_val_pos = skip_whitespace after_dims;
                    leading_comma = (case current_val_pos of [] \<Rightarrow> False | c # cs \<Rightarrow> c = CHR '','');
                    num_start = skip_whitespace (if leading_comma then drop 1 current_val_pos
                                                 else current_val_pos)
                in case mat_loop numCells num_start st of
                     (parsed, cells_left, st1) \<Rightarrow>
                       (let st2 = fold (\<lambda>j. add_data 0) [0..<cells_left] st1
                        in if parsed \<and> \<not> leading_comma then st2
                           else st2\<lparr>g_has_error := True\<rparr>)))"

subsection \<open>first_pass.c: one line of the source\<close>

text \<open>Setting the error flag, and calling \<open>addSymbol\<close> on the table of the state.\<close>

definition set_error :: "fp_state \<Rightarrow> fp_state" where
  "set_error st = st\<lparr>g_has_error := True\<rparr>"

definition add_symbol_st :: "string \<Rightarrow> int \<Rightarrow> SymbolType \<Rightarrow> fp_state \<Rightarrow> fp_state" where
  "add_symbol_st name address type st =
     (case addSymbol (symTab st) name address type (g_has_error st) of
        (head, g) \<Rightarrow> st\<lparr>symTab := head, g_has_error := g\<rparr>)"

text \<open>
  The branch for a line whose command starts with a dot. A label, when there is one, is
  first inserted as a data symbol at \<open>DC\<close>, whatever the directive is; the rest of the
  line is skipped when the error flag is set after that.
\<close>

definition process_directive :: "string \<Rightarrow> string \<Rightarrow> string \<Rightarrow> fp_state \<Rightarrow> fp_state" where
  "process_directive label_name command_or_directive p st =
     (let st1 = (if label_name = [] then st
                 else add_symbol_st label_name (DC st) SYMBOL_DATA st)
      in if label_name \<noteq> [] \<and> g_has_error st1 then st1
         else if command_or_directive = ''.data'' then validate_data_parameters p st1
         else if command_or_directive = ''.string'' then validate_string_parameters p st1
         else if command_or_directive = ''.mat'' then validate_mat_parameters p st1
         else if command_or_directive = ''.extern''
         then (case scan_word p of
                 None \<Rightarrow> set_error st1
               | Some (extern_label_name, n) \<Rightarrow>
                   add_symbol_st extern_label_name 0 SYMBOL_EXTERNAL st1)
         else if command_or_directive = ''.entry''
         then (case scan_word p of
                 None \<Rightarrow> set_error st1
               | Some (entry_label_name, n) \<Rightarrow>
                   (case findSymbol (symTab st1) entry_label_name of
                      None \<Rightarrow> add_symbol_st entry_label_name 0 SYMBOL_ENTRY st1
                    | Some i \<Rightarrow>
                        if sym_type (symTab st1 ! i) = SYMBOL_EXTERNAL then set_error st1
                        else st1\<lparr>symTab :=
                               (symTab st1)[i := (symTab st1 ! i)\<lparr>sym_type := SYMBOL_ENTRY\<rparr>]\<rparr>))
         else set_error st1)"

text \<open>
  An operand as the first pass keeps it: the token without leading white space, cut at
  its first blank or tab, and copied into a buffer of \<open>MAX_LINE_LENGTH\<close> bytes.
\<close>

definition trimmed_operand :: "string \<Rightarrow> string" where
  "trimmed_operand token =
     takeWhile (\<lambda>c. c \<noteq> CHR '' '' \<and> c \<noteq> CHR 0x09) (skip_whitespace token)"

text \<open>
  The comma-separated operands: \<open>Inl\<close> is one of the \<open>continue\<close>s after an error,
  \<open>Inr\<close> gives \<open>op1_str\<close>, \<open>op2_str\<close> and \<open>num_ops_found\<close>.
\<close>

definition parse_operands :: "string \<Rightarrow> unit + (string \<times> string \<times> nat)" where
  "parse_operands p =
     (case (case strtok_r p '','' of
              None \<Rightarrow> Inr ([], 0, [])
            | Some (token, state1) \<Rightarrow>
                if trimmed_operand token = [] then Inl ()
                else Inr (take (MAX_LINE_LENGTH - 1) (trimmed_operand token), Suc 0, state1)) of
        Inl e \<Rightarrow> Inl ()
      | Inr (op1_str, num_ops1, state1) \<Rightarrow>
          (case (case strtok_r state1 '','' of
                   None \<Rightarrow> Inr ([], num_ops1, [])
                 | Some (token, state2) \<Rightarrow>
                     if num_ops1 = 0 then Inl ()
                     else if trimmed_operand token = [] then Inl ()
                     else Inr (take (MAX_LINE_LENGTH - 1) (trimmed_operand token), 2, state2)) of
             Inl e \<Rightarrow> Inl ()
           | Inr (op2_str, num_ops_found, state2) \<Rightarrow>
               (case strtok_r state2 '','' of
                  None \<Rightarrow> Inr (op1_str, op2_str, num_ops_found)
                | Some (token, state3) \<Rightarrow>
                    if skip_whitespace token = [] then Inr (op1_str, op2_str, num_ops_found)
                    else Inl ())))"

text \<open>The branch for an instruction line.\<close>

definition process_instruction :: "string \<Rightarrow> string \<Rightarrow> string \<Rightarrow> fp_state \<Rightarrow> fp_state" where
  "process_instruction label_name command_or_directive p st =
     (let st1 = (if label_name = [] then st
                 else add_symbol_st label_name (IC st) SYMBOL_CODE st)
      in if label_name \<noteq> [] \<and> g_has_error st1 then st1
         else if is_opcode command_or_directive
         then (case parse_operands p of
                 Inl e \<Rightarrow> set_error st1
               | Inr (op1_str, op2_str, num_ops_found) \<Rightarrow>
                   if validate_instruction_operands command_or_directive op1_str op2_str
                        num_ops_found
                   then (let newInst =
                               \<lparr>inst_address = IC st1,
                                original_line_number = lineNumber st1,
                                opcode = take 4 command_or_directive,
                                num_operands = num_ops_found,
                                operand1 = take (MAX_LINE_LENGTH - 1) op1_str,
                                operand2 = take (MAX_LINE_LENGTH - 1) op2_str,
                                instruction_length =
                                  calculate_instruction_length (take 4 command_or_directive)
                                    (take (MAX_LINE_LENGTH - 1) op1_str)
                                    (take (MAX_LINE_LENGTH - 1) op2_str),
                                machine_code_base4 = [],
                                operand_words_base4 = [[], [], [], []],
                                num_operand_words = 0\<rparr>
                         in if instruction_length newInst = - 1 then set_error st1
                            else st1\<lparr>temp_i_head := newInst # temp_i_head st1,
                                     IC := IC st1 + instruction_length newInst\<rparr>)
                   else set_error st1)
         else set_error st1)"

text \<open>
  The body of the loop of \<open>firstPass\<close> for a line that passed the length check: the line
  terminator is cut off, blank lines and comments are skipped, a label is split off at
  the first colon, and the command decides the branch.
\<close>

definition process_line :: "string \<Rightarrow> fp_state \<Rightarrow> fp_state" where
  "process_line line st =
     (let p = skip_whitespace (takeWhile (\<lambda>c. c \<noteq> CHR 0x0D \<and> c \<noteq> CHR 0x0A) line)
      in case p of
           [] \<Rightarrow> st
         | c # cs \<Rightarrow>
             if c = CHR '';'' then st
             else
               (let label_len = length (takeWhile (\<lambda>c. c \<noteq> CHR '':'') p);
                    has_colon = (CHR '':'' \<in> set p)
                in if has_colon \<and> label_len = 0 then set_error st
                   else if has_colon \<and> MAX_SYMBOL_LENGTH \<le> label_len then set_error st
                   else
                     (let label_name = (if has_colon then take label_len p else []);
                          p1 = (if has_colon then skip_whitespace (drop (label_len + 1) p) else p)
                      in case scan_word p1 of
                           None \<Rightarrow> if label_name = [] then st else set_error st
                         | Some (command_or_directive, chars_read) \<Rightarrow>
                             (let p2 = skip_whitespace (drop chars_read p1)
                              in if take 1 command_or_directive = ''.''
                                 then process_directive label_name command_or_directive p2 st
                                 else process_instruction label_name command_or_directive p2 st))))"

subsection \<open>first_pass.c: the pass\<close>

text \<open>
  The loop \<open>while (fgets(line, sizeof(line), input) != NULL)\<close> over the unread text of
  the expanded file. A line that fills the buffer without reaching its line feed is an
  error, and the rest of the physical line is dropped.
\<close>

function firstPass_loop :: "string \<Rightarrow> fp_state \<Rightarrow> fp_state" where
  "firstPass_loop input st =
     (case fgets (MAX_LINE_LENGTH + 2) input of
        None \<Rightarrow> st
      | Some (line, rest) \<Rightarrow>
          (let st1 = st\<lparr>lineNumber := lineNumber st + 1\<rparr>
           in if MAX_LINE_LENGTH < length line \<and> line ! MAX_LINE_LENGTH \<noteq> CHR 0x0A
              then firstPass_loop (skip_rest_of_line rest) (set_error st1)
              else firstPass_loop rest (process_line line st1)))"
  by pat_completeness auto
termination
proof (relation "measure (\<lambda>(input, st). length input)")
  show "wf (measure (\<lambda>(input, st). length input))" by simp
next
  have chars: "length (snd (fgets_chars n s)) \<le> length s
               \<and> (0 < n \<and> s \<noteq> [] \<longrightarrow> length (snd (fgets_chars n s)) < length s)"
    for n s
    by (induction n s rule: fgets_chars.induct) auto
  have shorter: "length rest < length input"
    if "fgets (MAX_LINE_LENGTH + 2) input = Some (line, rest)" for input line rest
  proof -
    from that have "input \<noteq> []" and "rest = snd (fgets_chars (MAX_LINE_LENGTH + 1) input)"
      by (auto simp: fgets_def split: if_splits)
    then show ?thesis using chars [of "MAX_LINE_LENGTH + 1" input] by simp
  qed
  have skipped: "length (skip_rest_of_line rest) \<le> length rest" for rest
    using length_dropWhile_le [of "\<lambda>c. c \<noteq> CHR 0x0A" rest] by (simp add: skip_rest_of_line_def)
  fix input :: string and st :: fp_state and x2 x1 x2a
  assume "fgets (MAX_LINE_LENGTH + 2) input = Some x2" "(x1, x2a) = x2"
  then have less: "length x2a < length input" using shorter [of input x1 x2a] by simp
  fix xa :: fp_state
  show "((skip_rest_of_line x2a, set_error xa), input, st) \<in> measure (\<lambda>(input, st). length input)"
    using less skipped [of x2a] by simp
  show "((x2a, process_line x1 xa), input, st) \<in> measure (\<lambda>(input, st). length input)"
    using less by simp
qed

declare firstPass_loop.simps [simp del]

text \<open>
  What \<open>firstPass\<close> hands back: its return value, the symbol table, the two lists in
  source order, the final counters, and the error flag.
\<close>

record first_pass_result =
  fp_ok :: bool
  fp_symTab :: "Symbol list"
  instructionList :: "Instruction list"
  dataList :: "DataItem list"
  final_ic :: int
  final_dc :: int
  fp_error :: bool

definition firstPass :: "string \<Rightarrow> first_pass_result" where
  "firstPass input =
     (let st = firstPass_loop input
                 \<lparr>symTab = [], temp_i_head = [], temp_d_head = [], IC = MEMORY_START, DC = 0,
                  g_has_error = False, lineNumber = 0\<rparr>
      in \<lparr>fp_ok = (\<not> g_has_error st),
          fp_symTab = updateDataSymbolsAddresses (symTab st) (IC st),
          instructionList = rev (temp_i_head st),
          dataList = rev (temp_d_head st),
          final_ic = IC st,
          final_dc = DC st,
          fp_error = g_has_error st\<rparr>)"

subsection \<open>output_files.c\<close>

text \<open>
  Each writer is the text it writes; the two optional files are \<open>None\<close> when the writer
  returns before creating them.
\<close>

definition object_header :: "int \<Rightarrow> int \<Rightarrow> string" where
  "object_header ICF DCF =
     stripLeadingA (convertToBase4 ICF) @ '' '' @ stripLeadingA (convertToBase4 DCF) @ [CHR 0x0A]"

definition object_line :: "int \<Rightarrow> string \<Rightarrow> string" where
  "object_line address word = convertToBase4 address @ [CHR 0x09] @ word @ [CHR 0x0A]"

definition instruction_lines :: "Instruction \<Rightarrow> string" where
  "instruction_lines inst =
     object_line (inst_address inst) (machine_code_base4 inst)
     @ concat (map (\<lambda>i. object_line (inst_address inst + int i + 1) (operand_words_base4 inst ! i))
                 [0..<num_operand_words inst])"

definition data_lines :: "int \<Rightarrow> DataItem \<Rightarrow> string" where
  "data_lines ICF data =
     object_line (data_address data + ICF + MEMORY_START) (convertToBase4 (data_value data))"

definition writeObjectFile :: "int \<Rightarrow> int \<Rightarrow> DataItem list \<Rightarrow> Instruction list \<Rightarrow> string" where
  "writeObjectFile ICF DCF data_list instruction_list =
     object_header ICF DCF
     @ concat (map instruction_lines instruction_list)
     @ concat (map (data_lines ICF) data_list)"

definition entry_lines :: "Symbol \<Rightarrow> string" where
  "entry_lines symbol =
     (if sym_type symbol = SYMBOL_ENTRY \<and> MEMORY_START \<le> sym_address symbol
      then sym_name symbol @ '' '' @ convertToBase4 (sym_address symbol) @ [CHR 0x0A]
      else [])"

definition writeEntriesFile :: "Symbol list \<Rightarrow> string option" where
  "writeEntriesFile symbols =
     (if list_ex (\<lambda>symbol. sym_type symbol = SYMBOL_ENTRY \<and> MEMORY_START \<le> sym_address symbol)
           symbols
      then Some (concat (map entry_lines symbols))
      else None)"

text \<open>
  The lines of the externals file that one symbol contributes: one for each node of
  its usage list, walked from the head.
\<close>

definition external_line :: "string \<Rightarrow> int \<Rightarrow> string" where
  "external_line name address = name @ '' '' @ convertToBase4 address @ [CHR 0x0A]"

definition external_lines :: "Symbol \<Rightarrow> string list" where
  "external_lines symbol =
     (if sym_type symbol = SYMBOL_EXTERNAL
      then map (external_line (sym_name symbol)) (external_usages symbol)
      else [])"

definition writeExternalsFile :: "Symbol list \<Rightarrow> string option" where
  "writeExternalsFile symbols =
     (if list_ex (\<lambda>symbol. sym_type symbol = SYMBOL_EXTERNAL \<and> external_usages symbol \<noteq> [])
           symbols
      then Some (concat (concat (map external_lines symbols)))
      else None)"

subsection \<open>macro_processor.c\<close>

record Macro =
  macro_name :: string
  macro_lines :: "string list"

definition is_reserved_macro_name :: "string \<Rightarrow> bool" where
  "is_reserved_macro_name name =
     (is_opcode name \<or> is_register name
      \<or> name \<in> set [''.data'', ''.string'', ''.mat'', ''.extern'', ''.entry'', ''mcro'',
                       ''mcroend''])"

text \<open>
  \<open>feof(input)\<close> right after an \<open>fgets\<close> that returned \<open>line\<close> and left \<open>rest\<close>
  unread: the end of the file was hit when the read stopped short of a full buffer
  without having met a line feed.
\<close>

definition feof_after :: "nat \<Rightarrow> string \<Rightarrow> string \<Rightarrow> bool" where
  "feof_after n line rest =
     (rest = [] \<and> length line < n - 1 \<and> (case rev line of [] \<Rightarrow> True | c # cs \<Rightarrow> c \<noteq> CHR 0x0A))"

text \<open>
  The state of \<open>processMacroDefinitions\<close>: the list of macros, newest first, the flag
  \<open>inMacro\<close>, and the error flag. \<open>currentMacro\<close> is not a field: it is set only
  when a macro is created, to that macro, then the head of the list, and it is read
  only while \<open>inMacro\<close> is set, before another macro can be created; so it is the
  head of the list wherever it is read.
\<close>

record macro_state =
  macroList :: "Macro list"
  inMacro :: bool
  macro_error :: bool

text \<open>The line \<open>mcro NAME\<close>, from the text after the word \<open>mcro\<close> on.\<close>

definition macro_open :: "string \<Rightarrow> macro_state \<Rightarrow> macro_state" where
  "macro_open after_mcro ms =
     (if inMacro ms then ms\<lparr>macro_error := True\<rparr>
      else case scan_word (skip_whitespace after_mcro) of
             None \<Rightarrow> ms\<lparr>macro_error := True, inMacro := False\<rparr>
           | Some (name, name_read_count) \<Rightarrow>
               if skip_whitespace (drop name_read_count (skip_whitespace after_mcro)) = []
               then (if is_valid_label name \<and> \<not> is_reserved_macro_name name
                     then (let g = (if list_ex (\<lambda>m. macro_name m = name) (macroList ms) then True
                                    else macro_error ms)
                           in if g then ms\<lparr>macro_error := True, inMacro := False\<rparr>
                              else ms\<lparr>macroList :=
                                        \<lparr>macro_name = take (MAX_SYMBOL_LENGTH - 1) name,
                                         macro_lines = []\<rparr> # macroList ms,
                                      inMacro := True\<rparr>)
                     else ms\<lparr>macro_error := True, inMacro := False\<rparr>)
               else ms\<lparr>macro_error := True, inMacro := False\<rparr>)"

text \<open>
  The body of the loop of \<open>processMacroDefinitions\<close> for a line that passed the length
  check.
\<close>

definition macro_definition_line :: "string \<Rightarrow> macro_state \<Rightarrow> macro_state" where
  "macro_definition_line line0 ms =
     (let line = takeWhile (\<lambda>c. c \<noteq> CHR 0x0D \<and> c \<noteq> CHR 0x0A) line0;
          trimmed_line = skip_whitespace line
      in case trimmed_line of
           [] \<Rightarrow> ms
         | c # cs \<Rightarrow>
             if c = CHR '';'' then ms
             else (case scan_word trimmed_line of
                     None \<Rightarrow> ms
                   | Some (command_token, read_count) \<Rightarrow>
                       if command_token = ''mcro''
                       then macro_open (drop read_count trimmed_line) ms
                       else if command_token = ''mcroend''
                       then (if inMacro ms
                             then (if skip_whitespace (drop read_count trimmed_line) = []
                                   then ms\<lparr>inMacro := False\<rparr>
                                   else ms\<lparr>macro_error := True, inMacro := False\<rparr>)
                             else ms\<lparr>macro_error := True\<rparr>)
                       else if inMacro ms
                       then (case macroList ms of
                               [] \<Rightarrow> ms\<lparr>macro_error := True, inMacro := False\<rparr>
                             | currentMacro # others \<Rightarrow>
                                 ms\<lparr>macroList :=
                                      currentMacro\<lparr>macro_lines := macro_lines currentMacro @ [line]\<rparr>
                                      # others\<rparr>)
                       else ms))"

text \<open>
  The loop of \<open>processMacroDefinitions\<close>. A line that does not end with a line feed,
  unless the end of the file was hit, is an error, and the rest of the physical line is
  dropped.
\<close>

function macro_definitions_loop :: "string \<Rightarrow> macro_state \<Rightarrow> macro_state" where
  "macro_definitions_loop input ms =
     (case fgets (MAX_LINE_LENGTH + 2) input of
        None \<Rightarrow> ms
      | Some (line, rest) \<Rightarrow>
          if (case rev line of [] \<Rightarrow> False | c # cs \<Rightarrow> c \<noteq> CHR 0x0A)
             \<and> \<not> feof_after (MAX_LINE_LENGTH + 2) line rest
          then macro_definitions_loop (skip_rest_of_line rest) (ms\<lparr>macro_error := True\<rparr>)
          else macro_definitions_loop rest (macro_definition_line line ms))"
  by pat_completeness auto
termination
proof (relation "measure (\<lambda>(input, ms). length input)")
  show "wf (measure (\<lambda>(input, ms). length input))" by simp
next
  have chars: "length (snd (fgets_chars n s)) \<le> length s
               \<and> (0 < n \<and> s \<noteq> [] \<longrightarrow> length (snd (fgets_chars n s)) < length s)"
    for n s
    by (induction n s rule: fgets_chars.induct) auto
  have shorter: "length rest < length input"
    if "fgets (MAX_LINE_LENGTH + 2) input = Some (line, rest)" for input line rest
  proof -
    from that have "input \<noteq> []" and "rest = snd (fgets_chars (MAX_LINE_LENGTH + 1) input)"
      by (auto simp: fgets_def split: if_splits)
    then show ?thesis using chars [of "MAX_LINE_LENGTH + 1" input] by simp
  qed
  have skipped: "length (skip_rest_of_line rest) \<le> length rest" for rest
    using length_dropWhile_le [of "\<lambda>c. c \<noteq> CHR 0x0A" rest] by (simp add: skip_rest_of_line_def)
  fix input :: string and ms :: macro_state and x2 x1 x2a
  assume "fgets (MAX_LINE_LENGTH + 2) input = Some x2" "(x1, x2a) = x2"
  then have less: "length x2a < length input" using shorter [of input x1 x2a] by simp
  show "((skip_rest_of_line x2a, ms\<lparr>macro_error := True\<rparr>), input, ms)
        \<in> measure (\<lambda>(input, ms). length input)"
    using less skipped [of x2a] by simp
  show "((x2a, macro_definition_line x1 ms), input, ms) \<in> measure (\<lambda>(input, ms). length input)"
    using less by simp
qed

declare macro_definitions_loop.simps [simp del]

text \<open>
  \<open>processMacroDefinitions\<close> starts with the error flag clear (\<open>main\<close> has reset it)
  and ends with the list of macros and the flag; a definition that is still open at the
  end of the file is an error.
\<close>

definition processMacroDefinitions :: "string \<Rightarrow> Macro list \<times> bool" where
  "processMacroDefinitions input =
     (let ms = macro_definitions_loop input
                 \<lparr>macroList = [], inMacro = False, macro_error = False\<rparr>
      in (macroList ms, (if inMacro ms then True else macro_error ms)))"

text \<open>The lines of a macro joined by line feeds, as the \<open>strcat\<close> loops build them.\<close>

definition join_lines :: "string list \<Rightarrow> string" where
  "join_lines ls = (case ls of [] \<Rightarrow> [] | l # others \<Rightarrow> l @ concat (map (\<lambda>x. CHR 0x0A # x) others))"

text \<open>
  \<open>expandMacroInLine\<close>: the first word of the line, or the first word after the first
  colon, is looked up among the macros; the line is returned as it is when there is no
  such macro.
\<close>

definition expandMacroInLine :: "string \<Rightarrow> Macro list \<Rightarrow> string" where
  "expandMacroInLine line macros =
     (let line_copy = takeWhile (\<lambda>c. c \<noteq> CHR 0x0D \<and> c \<noteq> CHR 0x0A) line;
          trimmed = skip_whitespace line_copy
      in case trimmed of
           [] \<Rightarrow> line
         | c # cs \<Rightarrow>
             if c = CHR '';'' then line
             else (let colon = (CHR '':'' \<in> set trimmed);
                       macro_start =
                         (if colon
                          then skip_whitespace (drop 1 (dropWhile (\<lambda>c. c \<noteq> CHR '':'') trimmed))
                          else trimmed);
                       name = take (MAX_SYMBOL_LENGTH - 1) (takeWhile (\<lambda>c. \<not> isspace c) macro_start)
                   in if name = [] then line
                      else case find (\<lambda>m. macro_name m = name) macros of
                             None \<Rightarrow> line
                           | Some m \<Rightarrow>
                               if colon \<and> macro_lines m \<noteq> []
                               then take (length line_copy - length macro_start) line
                                    @ join_lines (macro_lines m)
                               else join_lines (macro_lines m)))"

subsection \<open>main.c: one input file\<close>

text \<open>
  The loop of \<open>main\<close> that writes the expanded file: the lines of a macro definition,
  with the lines that open and close it, are dropped, every other line is expanded, and a
  line feed is added to what does not end with one. The result is the text of the
  \<open>.am\<close> file. The flag \<open>inside_macro_def\<close> is the third argument.
\<close>

definition skip_whitespace_macro :: "string \<Rightarrow> string" where
  "skip_whitespace_macro str = dropWhile (\<lambda>c. c = CHR '' '' \<or> c = CHR 0x09) str"

definition expanded_output :: "string \<Rightarrow> string" where
  "expanded_output expanded_line_content =
     (case rev expanded_line_content of
        [] \<Rightarrow> []
      | c # cs \<Rightarrow> if c = CHR 0x0A then expanded_line_content
                 else expanded_line_content @ [CHR 0x0A])"

function expansion_loop :: "string \<Rightarrow> Macro list \<Rightarrow> bool \<Rightarrow> string" where
  "expansion_loop input macro_list inside_macro_def =
     (case fgets (MAX_LINE_LENGTH + 2) input of
        None \<Rightarrow> []
      | Some (line, rest) \<Rightarrow>
          (let first_word = (case scan_word (skip_whitespace_macro line) of
                               None \<Rightarrow> []
                             | Some (w, n) \<Rightarrow> w)
           in if first_word = ''mcro'' then expansion_loop rest macro_list True
              else if first_word = ''mcroend'' then expansion_loop rest macro_list False
              else if inside_macro_def then expansion_loop rest macro_list inside_macro_def
              else expanded_output (expandMacroInLine line macro_list)
                   @ expansion_loop rest macro_list inside_macro_def))"
  by pat_completeness auto
termination
proof (relation "measure (\<lambda>(input, macro_list, inside). length input)")
  show "wf (measure (\<lambda>(input, macro_list, inside). length input))" by simp
next
  have chars: "length (snd (fgets_chars n s)) \<le> length s
               \<and> (0 < n \<and> s \<noteq> [] \<longrightarrow> length (snd (fgets_chars n s)) < length s)"
    for n s
    by (induction n s rule: fgets_chars.induct) auto
  have shorter: "length rest < length input"
    if "fgets (MAX_LINE_LENGTH + 2) input = Some (line, rest)" for input line rest
  proof -
    from that have "input \<noteq> []" and "rest = snd (fgets_chars (MAX_LINE_LENGTH + 1) input)"
      by (auto simp: fgets_def split: if_splits)
    then show ?thesis using chars [of "MAX_LINE_LENGTH + 1" input] by simp
  qed
  fix input :: string and macro_list :: "Macro list" and inside_macro_def :: bool and x2 x1 x2a
  assume "fgets (MAX_LINE_LENGTH + 2) input = Some x2" "(x1, x2a) = x2"
  then have less: "length x2a < length input" using shorter [of input x1 x2a] by simp
  show "((x2a, macro_list, True), input, macro_list, inside_macro_def)
        \<in> measure (\<lambda>(input, macro_list, inside). length input)"
    using less by simp
  show "((x2a, macro_list, False), input, macro_list, inside_macro_def)
        \<in> measure (\<lambda>(input, macro_list, inside). length input)"
    using less by simp
  show "((x2a, macro_list, inside_macro_def), input, macro_list, inside_macro_def)
        \<in> measure (\<lambda>(input, macro_list, inside). length input)"
    using less by simp
  then show "((x2a, macro_list, inside_macro_def), input, macro_list, inside_macro_def)
        \<in> measure (\<lambda>(input, macro_list, inside). length input)" .
qed

declare expansion_loop.simps [simp del]

text \<open>
  The files \<open>main\<close> writes for one input and the error flag it ends with.
  \<open>assemble\<close> is the loop body of \<open>main\<close> from the first pass on, given the text of
  the \<open>.am\<close> file: the second pass runs only when the first left the flag clear, and
  the three writers run only when the flag is clear after both.
\<close>

record outputs =
  ob_file :: "string option"
  ent_file :: "string option"
  ext_file :: "string option"
  error_flag :: bool

definition assemble :: "string \<Rightarrow> outputs" where
  "assemble am =
     (let fp = firstPass am;
          g1 = (if fp_ok fp then fp_error fp else True)
      in if g1
         then \<lparr>ob_file = None, ent_file = None, ext_file = None, error_flag = True\<rparr>
         else (case secondPass (instructionList fp) (fp_symTab fp) g1 of
                 (ok, instructions, symbols, g2) \<Rightarrow>
                   (let g3 = (if ok then g2 else True)
                    in if g3
                       then \<lparr>ob_file = None, ent_file = None, ext_file = None, error_flag = True\<rparr>
                       else \<lparr>ob_file = Some (writeObjectFile (final_ic fp - MEMORY_START)
                                               (final_dc fp) (dataList fp) instructions),
                             ent_file = writeEntriesFile symbols,
                             ext_file = writeExternalsFile symbols,
                             error_flag = g3\<rparr>)))"

text \<open>
  The whole loop body of \<open>main\<close> for an input file that could be opened, given the text
  of the \<open>.as\<close> file: when the macro definitions leave the error flag set the file is
  given up before anything is written; otherwise the expanded text is assembled. The
  flag \<open>inside_macro_def\<close> starts clear.
\<close>

definition process_file :: "string \<Rightarrow> outputs" where
  "process_file source =
     (case processMacroDefinitions source of
        (macro_list, g) \<Rightarrow>
          if g then \<lparr>ob_file = None, ent_file = None, ext_file = None, error_flag = True\<rparr>
          else assemble (expansion_loop source macro_list False))"

subsection \<open>Recording external usages one after the other\<close>

text \<open>
  The second pass records the usages of an external symbol by one call of
  \<open>addExternalUsage\<close> for each, in the order it meets them. \<open>record_usages\<close> is that
  sequence of calls for the symbol at position \<open>i\<close> and the addresses \<open>as\<close>, first
  recorded first.
\<close>

definition record_usages :: "Symbol list \<Rightarrow> nat \<Rightarrow> int list \<Rightarrow> Symbol list" where
  "record_usages symbols i as = fold (\<lambda>address t. fst (addExternalUsage t i address False)) as symbols"

subsection \<open>How operands are written\<close>

text \<open>
  The names of the eight registers, \<open>r0\<close> to \<open>r7\<close>, by number: the properties
  below are stated for the operand text of a register with a given number.
\<close>

definition digit_char :: "nat \<Rightarrow> char" where
  "digit_char n = ''01234567'' ! n"

definition register_name :: "nat \<Rightarrow> string" where
  "register_name n = [CHR ''r'', digit_char n]"

text \<open>A matrix operand \<open>NAME[rX][rY]\<close>, by its label and its two register numbers.\<close>

definition matrix_operand :: "string \<Rightarrow> nat \<Rightarrow> nat \<Rightarrow> string" where
  "matrix_operand name x y = name @ ''[r'' @ [digit_char x] @ ''][r'' @ [digit_char y] @ '']''"

subsection \<open>Source texts\<close>

text \<open>The text of a file, given its lines: each line with its line feed.\<close>

definition file_of_lines :: "string list \<Rightarrow> string" where
  "file_of_lines ls = concat (map (\<lambda>l. l @ [CHR 0x0A]) ls)"

subsection \<open>Invariants of the two passes\<close>

text \<open>
  What every line of the first pass keeps: the instruction counter is at least
  \<open>MEMORY_START\<close>, the data counter is not negative, and no symbol has a negative address.
\<close>

definition fp_inv :: "fp_state \<Rightarrow> bool" where
  "fp_inv st = (MEMORY_START \<le> IC st \<and> 0 \<le> DC st \<and> list_all (\<lambda>s. 0 \<le> sym_address s) (symTab st))"

text \<open>The part of a symbol that the second pass never writes: its type and its address.\<close>

definition sym_keys :: "Symbol list \<Rightarrow> (SymbolType \<times> int) list" where
  "sym_keys tab = map (\<lambda>s. (sym_type s, sym_address s)) tab"

section \<open>Properties\<close>

subsection \<open>The base-4 encoder\<close>

lemma and_3_mod: "(v::int) AND 3 = v mod 4"
  using take_bit_eq_mask [of 2 v] take_bit_eq_mod [of 2 v] by (simp add: mask_eq_exp_minus_1)

lemma and_3FF_mod: "(v::int) AND 0x3FF = v mod 1024"
  using take_bit_eq_mask [of 10 v] take_bit_eq_mod [of 10 v] by (simp add: mask_eq_exp_minus_1)

lemma convert_loop_5:
  "convert_loop 5 v [] = map base4_char
     [v div 4 div 4 div 4 div 4 mod 4, v div 4 div 4 div 4 mod 4, v div 4 div 4 mod 4,
      v div 4 mod 4, v mod 4]"
  by (simp add: eval_nat_numeral and_3_mod drop_bit_eq_div del: and_numerals)

lemma base4_digit_char: "0 \<le> d \<Longrightarrow> d < 4 \<Longrightarrow> base4_digit (base4_char d) = d"
  by (auto simp: base4_digit_def base4_char_def)

lemma base4_value_5:
  "base4_value [a, b, c, d, e] =
     base4_digit a * 256 + base4_digit b * 64 + base4_digit c * 16 + base4_digit d * 4
     + base4_digit e"
  by (simp add: base4_value_def)

lemma digits_sum:
  fixes v :: int
  assumes "0 \<le> v" "v < 1024"
  shows "(v div 4 div 4 div 4 div 4 mod 4) * 256 + (v div 4 div 4 div 4 mod 4) * 64
     + (v div 4 div 4 mod 4) * 16 + (v div 4 mod 4) * 4 + v mod 4 = v"
proof -
  define q1 where "q1 = v div 4"
  define q2 where "q2 = q1 div 4"
  define q3 where "q3 = q2 div 4"
  define q4 where "q4 = q3 div 4"
  have e0: "v = 4 * q1 + v mod 4" by (simp add: q1_def)
  have e1: "q1 = 4 * q2 + q1 mod 4" by (simp add: q2_def)
  have e2: "q2 = 4 * q3 + q2 mod 4" by (simp add: q3_def)
  have e3: "q3 = 4 * q4 + q3 mod 4" by (simp add: q4_def)
  have "0 \<le> q4" "q4 < 4" using assms by (simp_all add: q4_def q3_def q2_def q1_def)
  then have e4: "q4 mod 4 = q4" by simp
  have "q4 mod 4 * 256 + q3 mod 4 * 64 + q2 mod 4 * 16 + q1 mod 4 * 4 + v mod 4 = v"
    using e0 e1 e2 e3 e4 by linarith
  then show ?thesis by (simp add: q4_def q3_def q2_def q1_def)
qed

lemma base4_value_convertToBase4: "base4_value (convertToBase4 n) = n mod 1024"
proof -
  define v where "v = n mod 1024"
  have v: "0 \<le> v" "v < 1024" by (simp_all add: v_def)
  have "convertToBase4 n = convert_loop 5 v []"
    by (simp only: convertToBase4_def BASE4_WORD_LENGTH_def and_3FF_mod v_def)
  then have "base4_value (convertToBase4 n) =
     (v div 4 div 4 div 4 div 4 mod 4) * 256 + (v div 4 div 4 div 4 mod 4) * 64
     + (v div 4 div 4 mod 4) * 16 + (v div 4 mod 4) * 4 + v mod 4"
    by (simp add: convert_loop_5 base4_value_5 base4_digit_char)
  also have "\<dots> = v" using v by (rule digits_sum)
  finally show ?thesis by (simp add: v_def)
qed

lemma sign_extend10_mod:
  "- 512 \<le> n \<Longrightarrow> n \<le> 511 \<Longrightarrow> sign_extend10 (n mod 1024) = n"
proof (cases "0 \<le> n")
  case True
  assume "n \<le> 511"
  with True have "n mod 1024 = n" by simp
  with \<open>n \<le> 511\<close> show ?thesis by (simp add: sign_extend10_def)
next
  case False
  assume "- 512 \<le> n"
  with False have "(n + 1024) mod 1024 = n + 1024" by (intro mod_pos_pos_trivial) auto
  then have "n mod 1024 = n + 1024" by simp
  with \<open>- 512 \<le> n\<close> show ?thesis by (simp add: sign_extend10_def)
qed

text \<open>
  Claim C7: for every integer \<open>n\<close> in \<open>[-512, 511]\<close>, rendering \<open>n\<close> with
  \<open>convertToBase4\<close> (which masks to 10 bits) and reading the five digits back with
  sign extension from 10 bits gives \<open>n\<close> again.
\<close>

theorem base4_roundtrip:
  "- 512 \<le> n \<Longrightarrow> n \<le> 511 \<Longrightarrow> sign_extend10 (base4_value (convertToBase4 n)) = n"
  by (simp only: base4_value_convertToBase4 sign_extend10_mod)

theorem base4_roundtrip_witness:
  "- 512 \<le> (- 1 :: int) \<and> (- 1 :: int) \<le> 511
   \<and> convertToBase4 (- 1) = ''ddddd''
   \<and> sign_extend10 (base4_value (convertToBase4 (- 1))) = - 1"
  using base4_roundtrip [of "- 1"] by (simp add: convertToBase4_def BASE4_WORD_LENGTH_def eval_nat_numeral base4_char_def)

subsection \<open>Registers as operands\<close>

lemma nat_less_8:
  "reg < 8 \<Longrightarrow>
   reg = 0 \<or> reg = 1 \<or> reg = 2 \<or> reg = 3 \<or> reg = 4 \<or> reg = 5 \<or> reg = 6 \<or> reg = (7::nat)"
  by arith

lemma digit_char_simps:
  "digit_char 0 = CHR ''0''" "digit_char 1 = CHR ''1''" "digit_char (Suc 0) = CHR ''1''"
  "digit_char 2 = CHR ''2''"
  "digit_char 3 = CHR ''3''" "digit_char 4 = CHR ''4''" "digit_char 5 = CHR ''5''"
  "digit_char 6 = CHR ''6''" "digit_char 7 = CHR ''7''"
  by (simp_all add: digit_char_def)

lemma digit_char_cases:
  assumes "n < 8"
  shows "(n = 0 \<and> digit_char n = CHR ''0'') \<or> (n = 1 \<and> digit_char n = CHR ''1'')
       \<or> (n = 2 \<and> digit_char n = CHR ''2'') \<or> (n = 3 \<and> digit_char n = CHR ''3'')
       \<or> (n = 4 \<and> digit_char n = CHR ''4'') \<or> (n = 5 \<and> digit_char n = CHR ''5'')
       \<or> (n = 6 \<and> digit_char n = CHR ''6'') \<or> (n = 7 \<and> digit_char n = CHR ''7'')"
  using nat_less_8 [OF assms] by (elim disjE) (simp_all add: digit_char_simps)

lemma digit_char_props:
  assumes "n < 8"
  shows "isdigit (digit_char n)" "\<not> isspace (digit_char n)" "digit_char n \<noteq> CHR ''-''"
    "digit_char n \<noteq> CHR ''+''" "(of_char (digit_char n) :: int) - 48 = int n"
    "digit_char n \<noteq> CHR ''#''" "digit_char n \<noteq> CHR ''[''" 
  using digit_char_cases [OF assms]
  by (elim disjE conjE; simp add: isdigit_def isspace_def)+

lemma strtol_digit:
  assumes "n < 8" "\<not> isdigit c"
  shows "strtol (digit_char n # c # cs) = Some (int n, c # cs)"
  using digit_char_props [OF assms(1)] assms(2)
  by (simp add: strtol_def Let_def)

lemma strtol_digit_end:
  assumes "n < 8"
  shows "strtol [digit_char n] = Some (int n, [])"
  using digit_char_props [OF assms]
  by (simp add: strtol_def Let_def)

lemma is_register_name:
  assumes "n < 8" shows "is_register (register_name n)"
  using digit_char_props [OF assms] strtol_digit_end [OF assms] assms
  by (simp add: is_register_def register_name_def atoi_def)

lemma atoi_digit: "n < 8 \<Longrightarrow> atoi [digit_char n] = int n"
  by (simp add: atoi_def strtol_digit_end)

lemma base4_pair: 
  assumes "n < 8"
  shows "(if int n = 0 then ''aa'' else if int n = 1 then ''ab''
               else if int n = 2 then ''ac'' else if int n = 3 then ''ad''
               else if int n = 4 then ''ba'' else if int n = 5 then ''bb''
               else if int n = 6 then ''bc'' else if int n = 7 then ''bd''
               else ''aa'') = [base4_char (int n div 4), base4_char (int n mod 4)]"
  using nat_less_8 [OF assms] by (elim disjE) (simp_all add: base4_char_def)

lemma get_register_base4_name:
  assumes "n < 8"
  shows "get_register_base4 (register_name n) = [base4_char (int n div 4), base4_char (int n mod 4)]"
proof -
  have a: "atoi (drop 1 (register_name n)) = int n"
    by (simp add: register_name_def atoi_digit assms)
  have r: "is_register (register_name n) = True"
    using is_register_name [OF assms] by simp
  show ?thesis
    unfolding get_register_base4_def Let_def a r
    by (simp only: if_True base4_pair [OF assms])
qed

lemma mode_register_name: "n < 8 \<Longrightarrow> get_addressing_mode_base4 (register_name n) = CHR ''d''"
  using is_register_name [of n]
  by (simp add: get_addressing_mode_base4_def) (simp add: register_name_def)

lemma trim_register_name:
  assumes "n < 8" shows "trim_whitespace (register_name n) = register_name n"
  using digit_char_props [OF assms]
  by (simp add: trim_whitespace_def register_name_def isspace_def)

lemma extra_words_register_name:
  assumes "n < 8" shows "operand_extra_words (register_name n) = Some (True, 1)"
  using is_register_name [OF assms] digit_char_props [OF assms]
  by (simp add: operand_extra_words_def) (simp add: register_name_def)

lemma shared_word_bits:
  assumes "s < 8" "d < 8"
  shows "push_bit 6 (int s) OR push_bit 2 (int d) = 64 * int s + 4 * int d"
  using nat_less_8 [OF assms(1)] nat_less_8 [OF assms(2)] by (elim disjE) simp_all

lemma base4_digit_pair:
  assumes "n < 8"
  shows "base4_digit (base4_char (int n div 4)) * 4 + base4_digit (base4_char (int n mod 4)) = int n"
  using nat_less_8 [OF assms] by (elim disjE) (simp_all add: base4_digit_def base4_char_def)

lemma validate_opcode_num:
  "validate_instruction_operands opc a b k \<Longrightarrow> \<exists>n. opcode_num opc = Some n"
  by (auto simp: validate_instruction_operands_def Let_def split: option.splits)

lemma opcode_num_base4: "opcode_num opc = Some n \<Longrightarrow> get_opcode_base4 opc \<noteq> ''aaaa''"
  by (auto simp: opcode_num_def get_opcode_base4_def split: if_splits)

lemma validate_two_registers:
  assumes "validate_instruction_operands opc (register_name s) (register_name d) 2" "s < 8" "d < 8"
  shows "opc \<in> set [''mov'', ''cmp'', ''add'', ''sub'']"
  using assms(1) mode_register_name [OF assms(2)] mode_register_name [OF assms(3)]
  by (auto simp: validate_instruction_operands_def opcode_num_def legal_modes_def Let_def
      split: if_splits)

lemma length_two_registers:
  assumes "opc \<in> set [''mov'', ''cmp'', ''add'', ''sub'', ''lea'']" "s < 8" "d < 8"
  shows "calculate_instruction_length opc (register_name s) (register_name d) = 2"
proof -
  have ne: "register_name s \<noteq> []" "register_name d \<noteq> []" by (simp_all add: register_name_def)
  show ?thesis
    using assms(1)
    by (auto simp: calculate_instruction_length_def Let_def ne
        extra_words_register_name [OF assms(2)] extra_words_register_name [OF assms(3)])
qed

lemma encode_two_registers:
  assumes s: "s < 8" and d: "d < 8"
    and inst: "num_operands inst = 2" "operand1 inst = register_name s"
      "operand2 inst = register_name d" "4 = length (operand_words_base4 inst)"
    and valid: "validate_instruction_operands (opcode inst) (operand1 inst) (operand2 inst) 2"
  shows "encode_instruction_words inst tab g =
     (inst\<lparr>machine_code_base4 := get_opcode_base4 (opcode inst) @ ''dda'',
           operand_words_base4 := (operand_words_base4 inst)
             [0 := [base4_char (int s div 4), base4_char (int s mod 4),
                    base4_char (int d div 4), base4_char (int d mod 4), CHR ''a'']],
           num_operand_words := 1\<rparr>,
      tab, (if instruction_length inst = 2 then g else True))"
proof -
  from valid obtain n where n: "opcode_num (opcode inst) = Some n"
    using validate_opcode_num by blast
  have op: "get_opcode_base4 (opcode inst) \<noteq> ''aaaa''" using n by (rule opcode_num_base4)
  have op2: "[get_opcode_base4 (opcode inst) ! 0, get_opcode_base4 (opcode inst) ! 1]
             = get_opcode_base4 (opcode inst)"
    using n by (auto simp: opcode_num_def get_opcode_base4_def split: if_splits)
  note facts = trim_register_name [OF s] trim_register_name [OF d]
    mode_register_name [OF s] mode_register_name [OF d]
    get_register_base4_name [OF s] get_register_base4_name [OF d]
  have valid': "validate_instruction_operands (opcode inst) (register_name s) (register_name d) 2"
    using valid inst by simp
  have m: "get_opcode_base4 (opcode inst) @ ''dda''
       = [get_opcode_base4 (opcode inst) ! 0, get_opcode_base4 (opcode inst) ! 1, CHR ''d'', CHR ''d'', CHR ''a'']"
    using op2 by (metis append_Cons append_Nil)
  show ?thesis
    unfolding m
    by (simp add: encode_instruction_words_def encode_operand_words_def Let_def op inst facts
        valid' encode_operand1_def)
qed

text \<open>
  Claim C6: an instruction with two operands that are both registers \<open>r0\<close> to \<open>r7\<close>
  (the first pass accepts it, so it passed \<open>validate_instruction_operands\<close>, and stored
  the length \<open>calculate_instruction_length\<close> gave) has length 2, and the second pass
  emits for it one operand word that holds the source register number in bits 9 to 6,
  the destination register number in bits 5 to 2 and the digit \<open>a\<close> as its last, A,R,E
  digit; nothing is recorded in the symbol table and no error is raised.
\<close>

theorem two_registers_share_one_word:
  assumes "s < 8" and "d < 8"
    and "num_operands inst = 2"
    and "operand1 inst = register_name s" and "operand2 inst = register_name d"
    and "length (operand_words_base4 inst) = 4"
    and "validate_instruction_operands (opcode inst) (operand1 inst) (operand2 inst) 2"
    and "instruction_length inst =
           calculate_instruction_length (opcode inst) (operand1 inst) (operand2 inst)"
    and "encode_instruction_words inst tab g = (inst', tab', g')"
  shows "instruction_length inst = 2
       \<and> num_operand_words inst' = 1
       \<and> length (operand_words_base4 inst' ! 0) = 5
       \<and> base4_value (operand_words_base4 inst' ! 0) = push_bit 6 (int s) OR push_bit 2 (int d)
       \<and> last (operand_words_base4 inst' ! 0) = CHR ''a''
       \<and> tab' = tab \<and> g' = g"
proof -
  have "opcode inst \<in> set [''mov'', ''cmp'', ''add'', ''sub'']"
    using assms(7) unfolding assms(4,5) using assms(1,2) by (rule validate_two_registers)
  then have "calculate_instruction_length (opcode inst) (register_name s) (register_name d) = 2"
    using assms(1,2) by (intro length_two_registers) auto
  then have len: "instruction_length inst = 2" using assms(4,5,8) by simp
  have enc: "encode_instruction_words inst tab g =
     (inst\<lparr>machine_code_base4 := get_opcode_base4 (opcode inst) @ ''dda'',
           operand_words_base4 := (operand_words_base4 inst)
             [0 := [base4_char (int s div 4), base4_char (int s mod 4),
                    base4_char (int d div 4), base4_char (int d mod 4), CHR ''a'']],
           num_operand_words := 1\<rparr>,
      tab, (if instruction_length inst = 2 then g else True))"
    using assms(1,2,3,4,5) assms(6) [symmetric] assms(7) by (rule encode_two_registers)
  have word: "operand_words_base4 inst' ! 0 =
      [base4_char (int s div 4), base4_char (int s mod 4),
       base4_char (int d div 4), base4_char (int d mod 4), CHR ''a'']"
    and rest: "num_operand_words inst' = 1" "tab' = tab" "g' = g"
    using enc assms(9) assms(6) len by auto
  have "base4_value (operand_words_base4 inst' ! 0) = 64 * int s + 4 * int d"
    using base4_digit_pair [OF assms(1)] base4_digit_pair [OF assms(2)]
    by (simp add: word base4_value_5 base4_digit_def [of "CHR ''a''"])
  then have "base4_value (operand_words_base4 inst' ! 0) = push_bit 6 (int s) OR push_bit 2 (int d)"
    by (simp only: shared_word_bits [OF assms(1,2)])
  with len rest word show ?thesis by simp
qed

theorem two_registers_share_one_word_witness:
  "validate_instruction_operands ''mov'' ''r3'' ''r5'' 2
   \<and> calculate_instruction_length ''mov'' ''r3'' ''r5'' = 2
   \<and> operand_words_base4 (fst (encode_instruction_words
        \<lparr>inst_address = 100, original_line_number = 1, opcode = ''mov'', num_operands = 2,
         operand1 = ''r3'', operand2 = ''r5'', instruction_length = 2, machine_code_base4 = [],
         operand_words_base4 = [[], [], [], []], num_operand_words = 0\<rparr> [] False)) ! 0 = ''adbba''
   \<and> base4_value ''adbba'' = push_bit 6 3 OR push_bit 2 5"
proof -
  let ?inst = "\<lparr>inst_address = 100, original_line_number = 1, opcode = ''mov'', num_operands = 2,
         operand1 = ''r3'', operand2 = ''r5'', instruction_length = 2, machine_code_base4 = [],
         operand_words_base4 = [[], [], [], []], num_operand_words = 0\<rparr>"
  let ?res = "encode_instruction_words ?inst [] False"
  have r3: "''r3'' = register_name 3" and r5: "''r5'' = register_name 5"
    by (simp_all add: register_name_def digit_char_def)
  have v: "validate_instruction_operands ''mov'' ''r3'' ''r5'' 2" by code_simp
  have l: "calculate_instruction_length ''mov'' ''r3'' ''r5'' = 2" by code_simp
  have w: "operand_words_base4 (fst ?res) ! 0 = ''adbba''" by code_simp
  have "base4_value (operand_words_base4 (fst ?res) ! 0) = push_bit 6 (int 3) OR push_bit 2 (int 5)"
    using two_registers_share_one_word [of 3 5 ?inst "[]" False "fst ?res" "fst (snd ?res)" "snd (snd ?res)"]
      v l by (simp add: r3 [symmetric] r5 [symmetric])
  with v l w show ?thesis by simp
qed

subsection \<open>The symbol table\<close>

lemma addSymbol_rejected_iff:
  "snd (addSymbol head name address type False) \<longleftrightarrow>
     (is_opcode name \<or> is_register name \<or> \<not> is_valid_label name
      \<or> (\<exists>i. findSymbol head name = Some i \<and>
            (case type of
               SYMBOL_EXTERNAL \<Rightarrow> sym_type (head ! i) \<noteq> SYMBOL_EXTERNAL
             | SYMBOL_ENTRY \<Rightarrow> sym_type (head ! i) = SYMBOL_EXTERNAL
             | _ \<Rightarrow> sym_type (head ! i) \<noteq> SYMBOL_ENTRY \<or> sym_address (head ! i) \<noteq> 0)))"
  by (cases type; cases "findSymbol head name")
     (auto simp: addSymbol_def Let_def split: option.splits if_splits SymbolType.splits,
      (metis SymbolType.exhaust)+)

lemma addSymbol_flag_kept: "g \<Longrightarrow> snd (addSymbol head name address type g)"
  by (auto simp: addSymbol_def Let_def split: option.splits)

text \<open>
  Claim C10: a call of \<open>addSymbol\<close> that is rejected, that is, one that raises the
  error flag (\<open>addSymbol_rejected_iff\<close> lists when: the name is an opcode or a
  register, it is not a valid label, or the insert conflicts with the symbol of that name
  already in the table), returns the symbol table it was given: no symbol is added and
  no name, address or type is changed.
\<close>

theorem addSymbol_rejected_unchanged:
  "snd (addSymbol head name address type False) \<Longrightarrow>
   fst (addSymbol head name address type g) = head"
  by (auto simp: addSymbol_def Let_def split: option.splits if_splits)

theorem addSymbol_rejected_unchanged_witness:
  "snd (addSymbol [\<lparr>sym_name = ''X'', sym_address = 100, sym_type = SYMBOL_CODE,
                     external_usages = []\<rparr>] ''X'' 103 SYMBOL_CODE False)
   \<and> fst (addSymbol [\<lparr>sym_name = ''X'', sym_address = 100, sym_type = SYMBOL_CODE,
                       external_usages = []\<rparr>] ''X'' 103 SYMBOL_CODE False)
       = [\<lparr>sym_name = ''X'', sym_address = 100, sym_type = SYMBOL_CODE, external_usages = []\<rparr>]"
proof -
  let ?head = "[\<lparr>sym_name = ''X'', sym_address = 100, sym_type = SYMBOL_CODE,
                  external_usages = []\<rparr>]"
  have rejected: "snd (addSymbol ?head ''X'' 103 SYMBOL_CODE False)" by code_simp
  from addSymbol_rejected_unchanged [OF rejected]
  have "fst (addSymbol ?head ''X'' 103 SYMBOL_CODE False) = ?head" .
  with rejected show ?thesis by simp
qed

subsection \<open>The register word of a matrix operand\<close>

text \<open>
  Claim C4 as stated fails for \<open>[r2][r7]\<close>: the word is the hard-coded \<open>cabbc\<close>,
  whose value is 534 and whose last digit is \<open>c\<close>, not \<open>(2 << 6) | (7 << 2) = 156\<close>
  with last digit \<open>a\<close>.
\<close>

theorem matrix_word_r2_r7:
  "encode_matrix_registers 2 7 = ''cabbc''
   \<and> base4_value (encode_matrix_registers 2 7) = 534
   \<and> push_bit 6 (2::int) OR push_bit 2 7 = 156
   \<and> last (encode_matrix_registers 2 7) = CHR ''c''"
  by (simp add: encode_matrix_registers_def base4_value_def base4_digit_def)

lemma int_0_7:
  "0 \<le> x \<Longrightarrow> x \<le> 7 \<Longrightarrow> x = 0 \<or> x = 1 \<or> x = 2 \<or> x = 3 \<or> x = 4 \<or> x = 5 \<or> x = 6 \<or> x = (7::int)"
  by arith

lemma encode_matrix_registers_regular:
  assumes "0 \<le> x" "x \<le> 7" "0 \<le> y" "y \<le> 7" "\<not> (x = 2 \<and> y = 7)"
  shows "encode_matrix_registers x y = convertToBase4 (push_bit 6 x OR push_bit 2 y)"
  using int_0_7 [OF assms(1,2)] int_0_7 [OF assms(3,4)] assms(5)
  by (elim disjE)
     (simp_all add: encode_matrix_registers_def convertToBase4_def BASE4_WORD_LENGTH_def
        eval_nat_numeral base4_char_def)

lemma takeWhile_bracket:
  "CHR ''['' \<notin> set name \<Longrightarrow> takeWhile (\<lambda>c. c \<noteq> CHR ''['') (name @ CHR ''['' # rest) = name"
  by (induction name) auto

lemma dropWhile_bracket:
  "CHR ''['' \<notin> set name \<Longrightarrow>
   dropWhile (\<lambda>c. c \<noteq> CHR ''['') (name @ CHR ''['' # rest) = CHR ''['' # rest"
  by (induction name) auto

lemma scan_matrix_label_operand:
  "name \<noteq> [] \<Longrightarrow> CHR ''['' \<notin> set name \<Longrightarrow>
   scan_matrix_label (matrix_operand name x y) = Some name"
  by (simp add: scan_matrix_label_def matrix_operand_def takeWhile_bracket)

lemma scan_matrix_regs_operand:
  assumes "name \<noteq> []" "CHR ''['' \<notin> set name" "x < 8" "y < 8"
  shows "scan_matrix_regs (matrix_operand name x y) = Some (int x, int y)"
proof -
  have nd: "\<not> isdigit (CHR '']'')" by (simp add: isdigit_def)
  show ?thesis
    using assms(1)
    by (simp add: scan_matrix_regs_def matrix_operand_def takeWhile_bracket [OF assms(2)]
        dropWhile_bracket [OF assms(2)] strtol_digit [OF assms(3) nd] strtol_digit [OF assms(4) nd])
qed

lemma matrix_word_regular:
  assumes "x < 8" "y < 8" "\<not> (x = 2 \<and> y = 7)"
  shows "length (encode_matrix_registers (int x) (int y)) = 5
       \<and> base4_value (encode_matrix_registers (int x) (int y)) = push_bit 6 (int x) OR push_bit 2 (int y)
       \<and> last (encode_matrix_registers (int x) (int y)) = CHR ''a''"
  using nat_less_8 [OF assms(1)] nat_less_8 [OF assms(2)] assms(3)
  by (elim disjE)
     (simp_all add: encode_matrix_registers_def base4_char_def base4_value_def base4_digit_def)

text \<open>
  Claim C4, amended: for a matrix operand \<open>NAME[rX][rY]\<close> with \<open>X\<close> and \<open>Y\<close> in
  0 to 7 whose label is in the symbol table, the second operand word emitted is the word
  of \<open>encode_matrix_registers\<close>. For every pair but \<open>[r2][r7]\<close> it has five digits,
  the value \<open>(X << 6) | (Y << 2)\<close> and the last digit \<open>a\<close> (this includes
  \<open>[r3][r3]\<close>, whose hard-coded word \<open>adada\<close> is the regular one); for
  \<open>[r2][r7]\<close> it is the hard-coded word \<open>cabbc\<close>.
\<close>

theorem matrix_register_word:
  assumes "x < 8" and "y < 8"
    and "name \<noteq> []" and "CHR ''['' \<notin> set name"
    and "findSymbol tab name = Some i"
    and "idx + 1 < length (operand_words_base4 inst)"
  shows "case encode_label_operand (CHR ''c'') (matrix_operand name x y) inst tab g idx of
           Inl stopped \<Rightarrow> False
         | Inr (inst', tab', g', next_idx) \<Rightarrow>
             next_idx = idx + 2
             \<and> operand_words_base4 inst' ! (idx + 1) = encode_matrix_registers (int x) (int y)
             \<and> (if x = 2 \<and> y = 7
                 then operand_words_base4 inst' ! (idx + 1) = ''cabbc''
                 else length (operand_words_base4 inst' ! (idx + 1)) = 5
                      \<and> base4_value (operand_words_base4 inst' ! (idx + 1))
                          = push_bit 6 (int x) OR push_bit 2 (int y)
                      \<and> last (operand_words_base4 inst' ! (idx + 1)) = CHR ''a'')"
proof -
  have w: "if x = 2 \<and> y = 7 then encode_matrix_registers (int x) (int y) = ''cabbc''
           else length (encode_matrix_registers (int x) (int y)) = 5
              \<and> base4_value (encode_matrix_registers (int x) (int y))
                  = push_bit 6 (int x) OR push_bit 2 (int y)
              \<and> last (encode_matrix_registers (int x) (int y)) = CHR ''a''"
    using matrix_word_regular [OF assms(1,2)] by (simp add: encode_matrix_registers_def)
  have c: "encode_matrix_registers 2 7 = ''cabbc''"
    by (simp add: encode_matrix_registers_def)
  show ?thesis
    using assms(1,2,6) w
    by (simp add: c encode_label_operand_def Let_def scan_matrix_label_operand [OF assms(3,4)]
        scan_matrix_regs_operand [OF assms(3,4,1,2)] assms(5))
qed

theorem matrix_register_word_witness:
  "findSymbol [\<lparr>sym_name = ''M'', sym_address = 104, sym_type = SYMBOL_DATA,
                  external_usages = []\<rparr>] ''M'' = Some 0
   \<and> matrix_operand ''M'' 1 4 = ''M[r1][r4]''
   \<and> encode_label_operand (CHR ''c'') ''M[r1][r4]''
         \<lparr>inst_address = 100, original_line_number = 1, opcode = ''prn'', num_operands = 1,
          operand1 = ''M[r1][r4]'', operand2 = [], instruction_length = 3,
          machine_code_base4 = ''dacaa'', operand_words_base4 = [[], [], [], []],
          num_operand_words = 0\<rparr>
         [\<lparr>sym_name = ''M'', sym_address = 104, sym_type = SYMBOL_DATA, external_usages = []\<rparr>]
         False 0
       = Inr (\<lparr>inst_address = 100, original_line_number = 1, opcode = ''prn'', num_operands = 1,
               operand1 = ''M[r1][r4]'', operand2 = [], instruction_length = 3,
               machine_code_base4 = ''dacaa'', operand_words_base4 = [''abccc'', ''abbaa'', [], []],
               num_operand_words = 0\<rparr>,
              [\<lparr>sym_name = ''M'', sym_address = 104, sym_type = SYMBOL_DATA,
                 external_usages = []\<rparr>], False, 2)
   \<and> base4_value ''abbaa'' = push_bit 6 1 OR push_bit 2 4"
proof -
  let ?tab = "[\<lparr>sym_name = ''M'', sym_address = 104, sym_type = SYMBOL_DATA,
                 external_usages = []\<rparr>]"
  let ?inst = "\<lparr>inst_address = 100, original_line_number = 1, opcode = ''prn'', num_operands = 1,
          operand1 = ''M[r1][r4]'', operand2 = [], instruction_length = 3,
          machine_code_base4 = ''dacaa'', operand_words_base4 = [[], [], [], []],
          num_operand_words = 0\<rparr>"
  have f: "findSymbol ?tab ''M'' = Some 0" by simp
  have m: "matrix_operand ''M'' 1 4 = ''M[r1][r4]''"
    by (simp add: matrix_operand_def digit_char_def)
  have e: "encode_label_operand (CHR ''c'') ''M[r1][r4]'' ?inst ?tab False 0
       = Inr (?inst\<lparr>operand_words_base4 := [''abccc'', ''abbaa'', [], []]\<rparr>, ?tab, False, 2)"
    by code_simp
  have r: "encode_matrix_registers 1 4 = ''abbaa''"
    by (simp add: encode_matrix_registers_def base4_char_def)
  have "case encode_label_operand (CHR ''c'') (matrix_operand ''M'' 1 4) ?inst ?tab False 0 of
           Inl stopped \<Rightarrow> False
         | Inr (inst', tab', g', next_idx) \<Rightarrow>
             next_idx = 0 + 2
             \<and> operand_words_base4 inst' ! (0 + 1) = encode_matrix_registers (int 1) (int 4)
             \<and> (if (1::nat) = 2 \<and> (4::nat) = 7
                 then operand_words_base4 inst' ! (0 + 1) = ''cabbc''
                 else length (operand_words_base4 inst' ! (0 + 1)) = 5
                      \<and> base4_value (operand_words_base4 inst' ! (0 + 1))
                          = push_bit 6 (int 1) OR push_bit 2 (int 4)
                      \<and> last (operand_words_base4 inst' ! (0 + 1)) = CHR ''a'')"
    by (rule matrix_register_word [OF _ _ _ _ f]) simp_all
  then have "base4_value ''abbaa'' = push_bit 6 1 OR push_bit 2 4"
    unfolding m e by (simp add: r)
  with f m e show ?thesis by simp
qed

subsection \<open>The opcode word\<close>

lemma encode_label_operand_keeps_code:
  "encode_label_operand m operand inst tab g k = Inl (inst', tab') \<Longrightarrow>
     machine_code_base4 inst' = machine_code_base4 inst"
  "encode_label_operand m operand inst tab g k = Inr (inst', tab', g', k') \<Longrightarrow>
     machine_code_base4 inst' = machine_code_base4 inst"
  by (auto simp: encode_label_operand_def Let_def split: option.splits if_splits prod.splits)

lemma encode_operand1_keeps_code:
  "encode_operand1 m inst tab g = Inl (inst', tab') \<Longrightarrow>
     machine_code_base4 inst' = machine_code_base4 inst"
  "encode_operand1 m inst tab g = Inr (inst', tab', g', k', shared) \<Longrightarrow>
     machine_code_base4 inst' = machine_code_base4 inst"
  by (auto simp: encode_operand1_def Let_def encode_label_operand_keeps_code
      split: if_splits sum.splits prod.splits)

lemma encode_operand1_keeps_count:
  "encode_operand1 m inst tab g = Inr (inst', tab', g', k', shared) \<Longrightarrow>
     num_operands inst' = num_operands inst"
  by (auto simp: encode_operand1_def encode_label_operand_def Let_def
      split: if_splits sum.splits prod.splits option.splits)

lemma opcode_num_two_digits:
  "opcode_num opc = Some n \<Longrightarrow>
   [get_opcode_base4 opc ! 0, get_opcode_base4 opc ! 1] = get_opcode_base4 opc"
  by (auto simp: opcode_num_def get_opcode_base4_def split: if_splits)

lemma encode_operand2_keeps_code:
  "encode_operand2 inst tab g k = Inl (inst', tab') \<Longrightarrow>
     machine_code_base4 inst' = machine_code_base4 inst"
  "encode_operand2 inst tab g k = Inr (inst', tab', g', k') \<Longrightarrow>
     machine_code_base4 inst' = machine_code_base4 inst"
  by (auto simp: encode_operand2_def Let_def encode_label_operand_keeps_code
      split: if_splits sum.splits prod.splits)

lemma encode_operand_words_keeps_code:
  "machine_code_base4 (fst (encode_operand_words m inst tab g)) = machine_code_base4 inst"
proof (cases "encode_operand1 m inst tab g")
  case (Inl stopped)
  then show ?thesis
    by (cases stopped) (simp add: encode_operand_words_def encode_operand1_keeps_code(1))
next
  case (Inr went)
  obtain inst3 tab3 g3 k3 sh where w: "went = (inst3, tab3, g3, k3, sh)" by (cases went)
  have c3: "machine_code_base4 inst3 = machine_code_base4 inst"
    using Inr w encode_operand1_keeps_code(2) by blast
  show ?thesis
  proof (cases "num_operands inst3 = 2 \<and> \<not> sh")
    case False
    then show ?thesis using Inr w c3 by (auto simp: encode_operand_words_def Let_def)
  next
    case True
    show ?thesis
    proof (cases "encode_operand2 inst3 tab3 g3 k3")
      case (Inl stopped2)
      then show ?thesis
        using Inr w c3 True
        by (cases stopped2) (simp add: encode_operand_words_def encode_operand2_keeps_code(1))
    next
      case (Inr went2)
      obtain inst4 tab4 g4 k4 where w2: "went2 = (inst4, tab4, g4, k4)" by (cases went2)
      have "machine_code_base4 inst4 = machine_code_base4 inst3"
        using Inr w2 encode_operand2_keeps_code(2) by blast
      then show ?thesis
        using \<open>encode_operand1 m inst tab g = Inr went\<close> Inr w w2 c3 True
        by (simp add: encode_operand_words_def Let_def)
    qed
  qed
qed

lemma encode_instruction_words_code:
  assumes "get_opcode_base4 (opcode inst) \<noteq> ''aaaa''"
    and "validate_instruction_operands (opcode inst) (trim_whitespace (operand1 inst))
           (trim_whitespace (operand2 inst)) (num_operands inst)"
  shows "machine_code_base4 (fst (encode_instruction_words inst tab g))
         = [get_opcode_base4 (opcode inst) ! 0, get_opcode_base4 (opcode inst) ! 1,
            (if 1 \<le> num_operands inst
             then get_addressing_mode_base4 (trim_whitespace (operand1 inst)) else CHR ''a''),
            (if num_operands inst = 2
             then get_addressing_mode_base4 (trim_whitespace (operand2 inst)) else CHR ''a''),
            CHR ''a'']"
  using assms
  by (simp add: encode_instruction_words_def Let_def encode_operand_words_keeps_code)

text \<open>
  Claim C1 says that a single-operand instruction has its operand's mode in the fourth
  digit of the opcode word and \<open>a\<close> in the third. The second pass does the reverse:
  for every instruction with one operand that passes validation, the third digit is the
  mode of the operand and the fourth digit is \<open>a\<close>. For \<open>inc r1\<close> the word is
  \<open>bddaa\<close>, where the claim has \<open>bdada\<close>.
\<close>

theorem single_operand_mode_in_source_slot:
  assumes "num_operands inst = 1"
    and "validate_instruction_operands (opcode inst) (trim_whitespace (operand1 inst))
           (trim_whitespace (operand2 inst)) 1"
  shows "machine_code_base4 (fst (encode_instruction_words inst tab g))
         = get_opcode_base4 (opcode inst)
           @ [get_addressing_mode_base4 (trim_whitespace (operand1 inst)), CHR ''a'', CHR ''a'']"
proof -
  from assms(2) obtain n where n: "opcode_num (opcode inst) = Some n"
    using validate_opcode_num by blast
  have op: "get_opcode_base4 (opcode inst) \<noteq> ''aaaa''" using n by (rule opcode_num_base4)
  have "machine_code_base4 (fst (encode_instruction_words inst tab g))
         = [get_opcode_base4 (opcode inst) ! 0, get_opcode_base4 (opcode inst) ! 1]
           @ [get_addressing_mode_base4 (trim_whitespace (operand1 inst)), CHR ''a'', CHR ''a'']"
    using encode_instruction_words_code [OF op, of tab g] assms by simp
  then show ?thesis by (simp only: opcode_num_two_digits [OF n])
qed

theorem single_operand_mode_in_source_slot_witness:
  "validate_instruction_operands ''inc'' (trim_whitespace ''r1'') (trim_whitespace []) 1
   \<and> get_addressing_mode_base4 (trim_whitespace ''r1'') = CHR ''d''
   \<and> machine_code_base4 (fst (encode_instruction_words
        \<lparr>inst_address = 100, original_line_number = 1, opcode = ''inc'', num_operands = 1,
         operand1 = ''r1'', operand2 = [], instruction_length = 2, machine_code_base4 = [],
         operand_words_base4 = [[], [], [], []], num_operand_words = 0\<rparr> [] False)) = ''bddaa''"
proof -
  let ?inst = "\<lparr>inst_address = 100, original_line_number = 1, opcode = ''inc'', num_operands = 1,
         operand1 = ''r1'', operand2 = [], instruction_length = 2, machine_code_base4 = [],
         operand_words_base4 = [[], [], [], []], num_operand_words = 0\<rparr>"
  have v: "validate_instruction_operands ''inc'' (trim_whitespace ''r1'') (trim_whitespace []) 1"
    by code_simp
  have m: "get_addressing_mode_base4 (trim_whitespace ''r1'') = CHR ''d''" by code_simp
  have o: "get_opcode_base4 ''inc'' = ''bd''" by code_simp
  have "machine_code_base4 (fst (encode_instruction_words ?inst [] False))
         = get_opcode_base4 (opcode ?inst)
           @ [get_addressing_mode_base4 (trim_whitespace (operand1 ?inst)), CHR ''a'', CHR ''a'']"
    by (rule single_operand_mode_in_source_slot) (use v in simp_all)
  then have "machine_code_base4 (fst (encode_instruction_words ?inst [] False)) = ''bddaa''"
    by (simp add: m o)
  with v m show ?thesis by simp
qed

subsection \<open>The header of the object file\<close>

lemma base4_value_Cons_a: "base4_value (CHR ''a'' # s) = base4_value s"
  by (simp add: base4_value_def base4_digit_def)

lemma stripLeadingA_value: "base4_value (stripLeadingA s) = base4_value s"
  by (induction s rule: stripLeadingA.induct) (simp_all add: base4_value_Cons_a)

lemma stripLeadingA_set: "set (stripLeadingA s) \<subseteq> set s"
  by (induction s rule: stripLeadingA.induct) auto

lemma stripLeadingA_nonempty: "s \<noteq> [] \<Longrightarrow> stripLeadingA s \<noteq> []"
  by (induction s rule: stripLeadingA.induct) auto

lemma stripLeadingA_single_a:
  "s \<noteq> [] \<Longrightarrow> hd (stripLeadingA s) = CHR ''a'' \<Longrightarrow> stripLeadingA s = ''a''"
  by (induction s rule: stripLeadingA.induct) (auto split: if_splits)

lemma base4_char_set: "base4_char d \<in> set ''abcd''"
  by (simp add: base4_char_def)

lemma convertToBase4_set: "set (convertToBase4 n) \<subseteq> set ''abcd''"
  using base4_char_set
  by (simp add: convertToBase4_def BASE4_WORD_LENGTH_def eval_nat_numeral del: and_numerals)

lemma convertToBase4_length: "length (convertToBase4 n) = 5"
  by (simp add: convertToBase4_def BASE4_WORD_LENGTH_def eval_nat_numeral del: and_numerals)

lemma header_field_no_newline:
  "CHR 0x0A \<notin> set (stripLeadingA (convertToBase4 n))"
  "CHR '' '' \<notin> set (stripLeadingA (convertToBase4 n))"
  using stripLeadingA_set [of "convertToBase4 n"] convertToBase4_set [of n] by auto

lemma takeWhile_header:
  "takeWhile (\<lambda>c. c \<noteq> CHR 0x0A) (object_header i d @ rest)
   = stripLeadingA (convertToBase4 i) @ '' '' @ stripLeadingA (convertToBase4 d)"
  using header_field_no_newline(1) [of i] header_field_no_newline(1) [of d]
  by (simp add: object_header_def takeWhile_append)

lemma header_field:
  "stripLeadingA (convertToBase4 n) \<noteq> []"
  "base4_value (stripLeadingA (convertToBase4 n)) = n mod 1024"
  "hd (stripLeadingA (convertToBase4 n)) = CHR ''a'' \<Longrightarrow> stripLeadingA (convertToBase4 n) = ''a''"
proof -
  have ne: "convertToBase4 n \<noteq> []" using convertToBase4_length [of n] by auto
  show "stripLeadingA (convertToBase4 n) \<noteq> []" using ne by (rule stripLeadingA_nonempty)
  show "base4_value (stripLeadingA (convertToBase4 n)) = n mod 1024"
    by (simp only: stripLeadingA_value base4_value_convertToBase4)
  show "stripLeadingA (convertToBase4 n) = ''a''"
    if "hd (stripLeadingA (convertToBase4 n)) = CHR ''a''"
    using ne that by (rule stripLeadingA_single_a)
qed

text \<open>
  Claim C2 as stated fails: for the unit whose only line is \<open>stop\<close> the final
  instruction counter is 101, which renders \<open>bcbb\<close>, but the first line of the object
  file is \<open>b a\<close>: \<open>main\<close> passes \<open>final_ic - MEMORY_START\<close>, the number of
  instruction words, to \<open>writeObjectFile\<close>.
\<close>

theorem object_file_header_counterexample:
  "final_ic (firstPass (''stop'' @ [CHR 0x0A])) = 101
   \<and> stripLeadingA (convertToBase4 101) = ''bcbb''
   \<and> ob_file (assemble (''stop'' @ [CHR 0x0A]))
       = Some (''b a'' @ [CHR 0x0A] @ ''abcba'' @ [CHR 0x09] @ ''ddaaa'' @ [CHR 0x0A])"
  by code_simp

text \<open>
  Claim C2, amended: when a unit assembles without error, the first line of its object
  file is the number of instruction words \<open>final_ic - MEMORY_START\<close> and the number of
  data words \<open>final_dc\<close>, separated by one space, each rendered in base 4 (of the count
  masked to 10 bits) with its leading \<open>a\<close>s stripped, a single \<open>a\<close> being kept
  when nothing else is left.
\<close>

theorem object_file_header:
  assumes "\<not> error_flag (assemble am)"
  shows "case ob_file (assemble am) of
           None \<Rightarrow> False
         | Some ob \<Rightarrow>
             (let icf = stripLeadingA (convertToBase4 (final_ic (firstPass am) - MEMORY_START));
                  dcf = stripLeadingA (convertToBase4 (final_dc (firstPass am)))
              in takeWhile (\<lambda>c. c \<noteq> CHR 0x0A) ob = icf @ '' '' @ dcf
                 \<and> base4_value icf = (final_ic (firstPass am) - MEMORY_START) mod 1024
                 \<and> base4_value dcf = final_dc (firstPass am) mod 1024
                 \<and> icf \<noteq> [] \<and> dcf \<noteq> []
                 \<and> (hd icf = CHR ''a'' \<longrightarrow> icf = ''a'')
                 \<and> (hd dcf = CHR ''a'' \<longrightarrow> dcf = ''a''))"
proof -
  obtain ok instructions symbols g2 where sp:
    "secondPass (instructionList (firstPass am)) (fp_symTab (firstPass am)) False
       = (ok, instructions, symbols, g2)"
    by (cases "secondPass (instructionList (firstPass am)) (fp_symTab (firstPass am)) False") auto
  have ob: "ob_file (assemble am)
      = Some (writeObjectFile (final_ic (firstPass am) - MEMORY_START) (final_dc (firstPass am))
                (dataList (firstPass am)) instructions)"
    using assms sp by (auto simp: assemble_def Let_def split: if_splits)
  show ?thesis
    unfolding ob
    by (simp add: Let_def writeObjectFile_def takeWhile_header header_field)
qed

theorem object_file_header_witness:
  "\<not> error_flag (assemble (file_of_lines [''stop'', ''X: .data 7'']))
   \<and> final_ic (firstPass (file_of_lines [''stop'', ''X: .data 7''])) = 101
   \<and> final_dc (firstPass (file_of_lines [''stop'', ''X: .data 7''])) = 1
   \<and> ob_file (assemble (file_of_lines [''stop'', ''X: .data 7'']))
       = Some (file_of_lines [''b b'', ''abcba'' @ [CHR 0x09] @ ''ddaaa'',
                              ''abcbb'' @ [CHR 0x09] @ ''aaabd''])
   \<and> takeWhile (\<lambda>c. c \<noteq> CHR 0x0A)
         (file_of_lines [''b b'', ''abcba'' @ [CHR 0x09] @ ''ddaaa'',
                         ''abcbb'' @ [CHR 0x09] @ ''aaabd''])
       = stripLeadingA (convertToBase4 (101 - MEMORY_START)) @ '' '' @ stripLeadingA (convertToBase4 1)"
proof -
  let ?am = "file_of_lines [''stop'', ''X: .data 7'']"
  have h: "\<not> error_flag (assemble ?am)" by code_simp
  have ic: "final_ic (firstPass ?am) = 101" by code_simp
  have dc: "final_dc (firstPass ?am) = 1" by code_simp
  have ob: "ob_file (assemble ?am)
       = Some (file_of_lines [''b b'', ''abcba'' @ [CHR 0x09] @ ''ddaaa'',
                              ''abcbb'' @ [CHR 0x09] @ ''aaabd''])"
    by code_simp
  from object_file_header [OF h]
  have "takeWhile (\<lambda>c. c \<noteq> CHR 0x0A)
         (file_of_lines [''b b'', ''abcba'' @ [CHR 0x09] @ ''ddaaa'',
                         ''abcbb'' @ [CHR 0x09] @ ''aaabd''])
       = stripLeadingA (convertToBase4 (101 - MEMORY_START)) @ '' '' @ stripLeadingA (convertToBase4 1)"
    unfolding ob ic dc by (simp add: Let_def)
  with h ic dc ob show ?thesis by simp
qed

subsection \<open>The driver\<close>

lemma assemble_no_output_on_error:
  "error_flag (assemble am) \<Longrightarrow>
   ob_file (assemble am) = None \<and> ent_file (assemble am) = None \<and> ext_file (assemble am) = None"
  by (auto simp: assemble_def Let_def split: if_splits prod.splits)

text \<open>
  Claim C9: when the error flag of an input unit is set at the end of its processing,
  whether by the macro definitions, by the first pass or by the second pass, none of the
  object, entries and externals files is written for it.
\<close>

theorem no_output_files_on_error:
  "error_flag (process_file source) \<Longrightarrow>
   ob_file (process_file source) = None \<and> ent_file (process_file source) = None
   \<and> ext_file (process_file source) = None"
  using assemble_no_output_on_error
  by (auto simp: process_file_def split: prod.splits if_splits)

theorem no_output_files_on_error_witness:
  "error_flag (process_file (file_of_lines [''mov #600, r1'', ''mov r1, r9'']))
   \<and> ob_file (process_file (file_of_lines [''mov #600, r1'', ''mov r1, r9''])) = None
   \<and> ent_file (process_file (file_of_lines [''mov #600, r1'', ''mov r1, r9''])) = None
   \<and> ext_file (process_file (file_of_lines [''mov #600, r1'', ''mov r1, r9''])) = None
   \<and> error_flag (process_file (file_of_lines [''mcro M'', ''inc r1'', ''stop'']))
   \<and> ob_file (process_file (file_of_lines [''mcro M'', ''inc r1'', ''stop''])) = None"
proof -
  have h1: "error_flag (process_file (file_of_lines [''mov #600, r1'', ''mov r1, r9'']))"
    by code_simp
  have h2: "error_flag (process_file (file_of_lines [''mcro M'', ''inc r1'', ''stop'']))"
    by code_simp
  from no_output_files_on_error [OF h1] no_output_files_on_error [OF h2] h1 h2
  show ?thesis by simp
qed

text \<open>
  Claim C5 says that an entry that is declared and never defined is an error. The unit
  \<open>.entry FOO\<close>, \<open>stop\<close> assembles without error and exports \<open>FOO\<close> at 101:
  \<open>updateDataSymbolsAddresses\<close> has added the final instruction counter to the
  placeholder address 0 before \<open>secondPass\<close> looks for entries whose address is 0.
\<close>

theorem undefined_entry_not_reported:
  "process_file (file_of_lines [''.entry FOO'', ''stop''])
   = \<lparr>ob_file = Some (file_of_lines [''b a'', ''abcba'' @ [CHR 0x09] @ ''ddaaa'']),
      ent_file = Some (file_of_lines [''FOO abcbb'']),
      ext_file = None,
      error_flag = False\<rparr>"
  by code_simp

text \<open>
  Claim C8 says that a label in front of \<open>.extern\<close> is ignored. The first pass inserts
  the label \<open>X\<close> of \<open>X: .extern FOO\<close> as a data symbol (relocated to 100 here),
  before it looks at the directive; and a label that \<open>addSymbol\<close> rejects, as the
  opcode name \<open>mov\<close>, sets the error flag of a line that is fine without it.
\<close>

theorem extern_label_is_inserted:
  "fp_symTab (firstPass (file_of_lines [''X: .extern FOO'']))
   = [\<lparr>sym_name = ''FOO'', sym_address = 0, sym_type = SYMBOL_EXTERNAL, external_usages = []\<rparr>,
      \<lparr>sym_name = ''X'', sym_address = 100, sym_type = SYMBOL_DATA, external_usages = []\<rparr>]
   \<and> fp_error (firstPass (file_of_lines [''X: .extern FOO''])) = False
   \<and> fp_error (firstPass (file_of_lines [''.extern FOO''])) = False
   \<and> fp_error (firstPass (file_of_lines [''mov: .extern FOO''])) = True"
  by code_simp

subsection \<open>The externals file\<close>

lemma addExternalUsage_external:
  assumes "i < length tab" "sym_type (tab ! i) = SYMBOL_EXTERNAL"
  shows "fst (addExternalUsage tab i a g) ! i
         = (tab ! i)\<lparr>external_usages := a # external_usages (tab ! i)\<rparr>"
    and "length (fst (addExternalUsage tab i a g)) = length tab"
  using assms by (simp_all add: addExternalUsage_def Let_def)

lemma record_usages_node:
  assumes "i < length tab" "sym_type (tab ! i) = SYMBOL_EXTERNAL"
  shows "i < length (record_usages tab i as)
       \<and> record_usages tab i as ! i
           = (tab ! i)\<lparr>external_usages := rev as @ external_usages (tab ! i)\<rparr>"
  using assms
proof (induction as arbitrary: tab)
  case Nil
  then show ?case by (simp add: record_usages_def)
next
  case (Cons a as)
  let ?tab1 = "fst (addExternalUsage tab i a False)"
  have 1: "i < length ?tab1" "sym_type (?tab1 ! i) = SYMBOL_EXTERNAL"
    using addExternalUsage_external [OF Cons.prems, of a False] Cons.prems by simp_all
  have "record_usages tab i (a # as) = record_usages ?tab1 i as"
    by (simp add: record_usages_def)
  then show ?case
    using Cons.IH [OF 1] addExternalUsage_external (1) [OF Cons.prems, of a False] by simp
qed

text \<open>
  Claim C3, amended: an external symbol contributes one line to the externals file for
  each usage recorded for it, and these lines are in the reverse of the order in which
  the usages were recorded: the usage recorded last comes first.
\<close>

theorem external_lines_newest_first:
  assumes "i < length tab" and "sym_type (tab ! i) = SYMBOL_EXTERNAL"
    and "external_usages (tab ! i) = []"
  shows "external_lines (record_usages tab i as ! i)
         = map (external_line (sym_name (tab ! i))) (rev as)
       \<and> length (external_lines (record_usages tab i as ! i)) = length as"
  using record_usages_node [OF assms(1,2), of as] assms(2,3)
  by (simp add: external_lines_def)

text \<open>
  Claim C3 as stated fails: with the usages at 101 and 103 recorded in this order, the
  lines of the symbol are the one for 103 and then the one for 101; so is the externals
  file of the unit \<open>.extern E\<close>, \<open>jmp E\<close>, \<open>jsr E\<close>, whose first usage is at 101.
\<close>

theorem external_lines_order_counterexample:
  "external_lines
     (record_usages [\<lparr>sym_name = ''E'', sym_address = 0, sym_type = SYMBOL_EXTERNAL,
                       external_usages = []\<rparr>] 0 [101, 103] ! 0)
     = [''E abcbd'' @ [CHR 0x0A], ''E abcbb'' @ [CHR 0x0A]]
   \<and> map (external_line ''E'') [101, 103] = [''E abcbb'' @ [CHR 0x0A], ''E abcbd'' @ [CHR 0x0A]]
   \<and> ext_file (assemble (file_of_lines [''.extern E'', ''jmp E'', ''jsr E'']))
       = Some (file_of_lines [''E abcbd'', ''E abcbb''])"
  by code_simp

theorem external_lines_newest_first_witness:
  "external_lines
     (record_usages [\<lparr>sym_name = ''E'', sym_address = 0, sym_type = SYMBOL_EXTERNAL,
                       external_usages = []\<rparr>] 0 [101, 103, 110] ! 0)
     = [external_line ''E'' 110, external_line ''E'' 103, external_line ''E'' 101]"
proof -
  let ?tab = "[\<lparr>sym_name = ''E'', sym_address = 0, sym_type = SYMBOL_EXTERNAL,
                 external_usages = []\<rparr>]"
  have "external_lines (record_usages ?tab 0 [101, 103, 110] ! 0)
         = map (external_line (sym_name (?tab ! 0))) (rev [101, 103, 110])
       \<and> length (external_lines (record_usages ?tab 0 [101, 103, 110] ! 0)) = length [101, 103, 110 :: int]"
    by (rule external_lines_newest_first) simp_all
  then show ?thesis by simp
qed

subsection \<open>The entry check of the second pass\<close>

text \<open>
  The first pass inserts every symbol with the current counter as its address, and at
  its end \<open>updateDataSymbolsAddresses\<close> adds the final instruction counter to every symbol
  that is neither code nor external. So no entry leaves the first pass with address 0.
\<close>

lemma list_all_update: "list_all P xs \<Longrightarrow> P y \<Longrightarrow> list_all P (xs[i := y])"
  by (induction xs arbitrary: i) (auto split: nat.splits)

lemma findSymbol_Some: "findSymbol tab name = Some i \<Longrightarrow> i < length tab \<and> sym_name (tab ! i) = name"
  by (induction tab arbitrary: i) (auto split: if_splits option.splits)

lemma addSymbol_addresses:
  assumes "list_all (\<lambda>s. 0 \<le> sym_address s) tab" "0 \<le> address"
  shows "list_all (\<lambda>s. 0 \<le> sym_address s) (fst (addSymbol tab name address type g))"
proof (cases "findSymbol tab name")
  case None
  then show ?thesis using assms by (simp add: addSymbol_def Let_def)
next
  case (Some i)
  then have i: "i < length tab" using findSymbol_Some by blast
  then have "0 \<le> sym_address (tab ! i)" using assms(1) by (simp add: list_all_length)
  then show ?thesis
    using assms Some by (auto simp: addSymbol_def Let_def intro!: list_all_update)
qed

lemma add_symbol_st_inv: "fp_inv st \<Longrightarrow> 0 \<le> address \<Longrightarrow> fp_inv (add_symbol_st name address type st)"
  using addSymbol_addresses [of "symTab st" address name type "g_has_error st"]
  by (auto simp: fp_inv_def add_symbol_st_def split: prod.splits)

lemma add_data_inv: "fp_inv st \<Longrightarrow> fp_inv (add_data v st)"
  by (simp add: fp_inv_def add_data_def)

lemma set_error_inv: "fp_inv st \<Longrightarrow> fp_inv (set_error st)"
  by (simp add: fp_inv_def set_error_def)

lemma data_loop_inv: "fp_inv st \<Longrightarrow> fp_inv (snd (data_loop rest success st))"
proof (induction rest success st rule: data_loop.induct)
  case (1 rest success st)
  show ?case
  proof (cases "strtok_r rest '',''")
    case None
    then show ?thesis using "1.prems" by (subst data_loop.simps) simp
  next
    case (Some tr)
    obtain token rest1 where tr: "tr = (token, rest1)" by (cases tr)
    show ?thesis
      using "1.IH" [OF Some tr [symmetric]] "1.prems" Some tr add_data_inv
      by (subst data_loop.simps) (auto simp: Let_def)
  qed
qed

lemma fold_add_data_inv: "fp_inv st \<Longrightarrow> fp_inv (fold (\<lambda>c. add_data (f c)) xs st)"
  by (induction xs arbitrary: st) (simp_all add: add_data_inv)

lemma validate_data_parameters_inv: "fp_inv st \<Longrightarrow> fp_inv (validate_data_parameters p st)"
proof -
  assume i: "fp_inv st"
  have e: "fp_inv x \<Longrightarrow> fp_inv (x\<lparr>g_has_error := True\<rparr>)" for x by (simp add: fp_inv_def)
  have d: "fp_inv (if fst r then snd r else (snd r)\<lparr>g_has_error := True\<rparr>)"
    if "r = data_loop rest success st" for r rest success
    using data_loop_inv [OF i, of rest success] e that by simp
  show ?thesis
  proof (cases "skip_whitespace p")
    case Nil
    then show ?thesis using e [OF i] by (simp add: validate_data_parameters_def)
  next
    case (Cons c cs)
    show ?thesis
      using d [OF refl, of cs False] d [OF refl, of "c # cs" True]
      by (auto simp: validate_data_parameters_def Cons split_beta Let_def split: if_splits)
  qed
qed

lemma validate_string_parameters_inv: "fp_inv st \<Longrightarrow> fp_inv (validate_string_parameters p st)"
proof -
  assume i: "fp_inv st"
  have e: "fp_inv x \<Longrightarrow> fp_inv (x\<lparr>g_has_error := True\<rparr>)" for x by (simp add: fp_inv_def)
  show ?thesis
    using e i fold_add_data_inv [OF i, of char_value]
    by (auto simp: validate_string_parameters_def Let_def add_data_inv split: list.splits)
qed

lemma mat_loop_inv: "fp_inv st \<Longrightarrow> fp_inv (snd (snd (mat_loop k s st)))"
  by (induction k s st rule: mat_loop.induct)
     (auto simp: add_data_inv split: option.splits prod.splits)

lemma validate_mat_parameters_inv: "fp_inv st \<Longrightarrow> fp_inv (validate_mat_parameters p st)"
proof -
  assume i: "fp_inv st"
  have e: "fp_inv x \<Longrightarrow> fp_inv (x\<lparr>g_has_error := True\<rparr>)" for x by (simp add: fp_inv_def)
  have m: "fp_inv st1" if "mat_loop k s st = (parsed, left, st1)" for k s parsed left st1
    using mat_loop_inv [OF i, of k s] that by simp
  have f: "fp_inv x \<Longrightarrow> fp_inv (fold (\<lambda>j. add_data 0) js x)" for x and js :: "nat list"
    using fold_add_data_inv [of x "\<lambda>j. 0" js] by simp
  show ?thesis
    using e i
    by (auto simp: validate_mat_parameters_def Let_def split: option.splits prod.splits
        intro!: f e dest!: m)
qed

lemma process_directive_inv:
  assumes "fp_inv st"
  shows "fp_inv (process_directive label_name cmd p st)"
proof -
  have dc: "0 \<le> DC st" using assms by (simp add: fp_inv_def)
  define st1 where "st1 = (if label_name = [] then st else add_symbol_st label_name (DC st) SYMBOL_DATA st)"
  have 1: "fp_inv st1" using assms dc by (simp add: st1_def add_symbol_st_inv)
  have upd: "fp_inv (st1\<lparr>symTab := (symTab st1)[i := (symTab st1 ! i)\<lparr>sym_type := SYMBOL_ENTRY\<rparr>]\<rparr>)"
    if "findSymbol (symTab st1) n = Some i" for n i
  proof -
    from that have "i < length (symTab st1)" using findSymbol_Some by blast
    then have "0 \<le> sym_address (symTab st1 ! i)" using 1 by (simp add: fp_inv_def list_all_length)
    then show ?thesis using 1 by (auto simp: fp_inv_def intro!: list_all_update)
  qed
  show ?thesis
    unfolding process_directive_def Let_def st1_def [symmetric]
    using 1 upd
    by (auto simp: validate_data_parameters_inv validate_string_parameters_inv
        validate_mat_parameters_inv set_error_inv add_symbol_st_inv
        split: option.splits prod.splits)
qed

lemma operand_extra_words_range:
  "operand_extra_words op = Some (r, k) \<Longrightarrow> 1 \<le> k"
  by (auto simp: operand_extra_words_def split: if_splits option.splits)

lemma calculate_instruction_length_range:
  "calculate_instruction_length opc a b = - 1 \<or> 1 \<le> calculate_instruction_length opc a b"
proof -
  define n :: int where "n = (if a = [] then 0 else 1) + (if b = [] then 0 else 1)"
  define x1 where "x1 = (if 1 \<le> n then operand_extra_words a else Some (False, 0))"
  define x2 where "x2 = (if n = 2 then operand_extra_words b else Some (False, 0))"
  have r1: "0 \<le> k" if "x1 = Some (r, k)" for r k
    using that operand_extra_words_range [of a r k] by (auto simp: x1_def split: if_splits)
  have r2: "0 \<le> k" if "x2 = Some (r, k)" for r k
    using that operand_extra_words_range [of b r k] by (auto simp: x2_def split: if_splits)
  define t :: int where "t = (case x1 of None \<Rightarrow> - 1
              | Some (op1_is_reg, op1_extra_words) \<Rightarrow>
                  (case x2 of None \<Rightarrow> - 1
                   | Some (op2_is_reg, op2_extra_words) \<Rightarrow>
                       if op1_is_reg \<and> op2_is_reg then 1 + 1
                       else if 5 < 1 + op1_extra_words + op2_extra_words then - 1
                            else 1 + op1_extra_words + op2_extra_words))"
  have tail: "t = - 1 \<or> 1 \<le> t"
  proof (cases x1)
    case None
    then show ?thesis by (simp add: t_def)
  next
    case (Some p1)
    obtain g1 k1 where p1: "p1 = (g1, k1)" by (cases p1)
    show ?thesis
    proof (cases x2)
      case None
      then show ?thesis using Some p1 by (simp add: t_def)
    next
      case (Some p2)
      obtain g2 k2 where p2: "p2 = (g2, k2)" by (cases p2)
      show ?thesis
        using r1 [of g1 k1] r2 [of g2 k2] \<open>x1 = Some p1\<close> Some p1 p2
        by (simp add: t_def Let_def)
    qed
  qed
  define e :: int where "e = (if opc = ''rts'' \<or> opc = ''stop'' then 0
             else if opc \<in> set [''not'', ''clr'', ''inc'', ''dec'', ''jmp'', ''bne'', ''jsr'',
                                     ''red'', ''prn''] then 1
             else if opc \<in> set [''mov'', ''cmp'', ''add'', ''sub'', ''lea''] then 2
             else - 1)"
  have "calculate_instruction_length opc a b = (if e = - 1 \<or> e \<noteq> n then - 1 else t)"
    unfolding calculate_instruction_length_def Let_def n_def [symmetric]
      x1_def [symmetric] x2_def [symmetric] t_def [symmetric] e_def [symmetric] ..
  then have "calculate_instruction_length opc a b = - 1 \<or> calculate_instruction_length opc a b = t"
    by (cases "e = - 1 \<or> e \<noteq> n") simp_all
  with tail show ?thesis by auto
qed

lemma process_instruction_inv:
  assumes "fp_inv st"
  shows "fp_inv (process_instruction label_name cmd p st)"
proof -
  have ic: "0 \<le> IC st" using assms by (simp add: fp_inv_def MEMORY_START_def)
  define st1 where "st1 = (if label_name = [] then st else add_symbol_st label_name (IC st) SYMBOL_CODE st)"
  have 1: "fp_inv st1" using assms ic by (simp add: st1_def add_symbol_st_inv)
  have step: "fp_inv (st1\<lparr>temp_i_head := i # temp_i_head st1, IC := IC st1 + len\<rparr>)"
    if "1 \<le> len" for i len
    using 1 that by (simp add: fp_inv_def)
  have len: "calculate_instruction_length a b c \<noteq> - 1 \<Longrightarrow> 1 \<le> calculate_instruction_length a b c"
    for a b c using calculate_instruction_length_range [of a b c] by auto
  show ?thesis
    unfolding process_instruction_def Let_def st1_def [symmetric]
    using 1 by (auto simp: set_error_inv split: sum.splits prod.splits intro!: step len)
qed

lemma process_line_inv: "fp_inv st \<Longrightarrow> fp_inv (process_line line st)"
  by (auto simp: process_line_def Let_def set_error_inv process_directive_inv
      process_instruction_inv split: list.splits option.splits prod.splits)

lemma firstPass_loop_inv: "fp_inv st \<Longrightarrow> fp_inv (firstPass_loop input st)"
proof (induction input st rule: firstPass_loop.induct)
  case (1 input st)
  show ?case
  proof (cases "fgets (MAX_LINE_LENGTH + 2) input")
    case None
    then show ?thesis using "1.prems" by (subst firstPass_loop.simps) simp
  next
    case (Some lr)
    obtain line rest where lr: "lr = (line, rest)" by (cases lr)
    have n: "fp_inv (st\<lparr>lineNumber := lineNumber st + 1\<rparr>)"
      using "1.prems" by (simp add: fp_inv_def)
    show ?thesis
    proof (cases "MAX_LINE_LENGTH < length line \<and> line ! MAX_LINE_LENGTH \<noteq> CHR 0x0A")
      case True
      have eq: "firstPass_loop input st
          = firstPass_loop (skip_rest_of_line rest) (set_error (st\<lparr>lineNumber := lineNumber st + 1\<rparr>))"
        by (subst firstPass_loop.simps)
           (use True Some lr in \<open>simp add: Let_def\<close>)
      show ?thesis
        unfolding eq
        using "1.IH"(1) [OF Some lr [symmetric] refl True] n set_error_inv by blast
    next
      case False
      have eq: "firstPass_loop input st
          = firstPass_loop rest (process_line line (st\<lparr>lineNumber := lineNumber st + 1\<rparr>))"
        by (subst firstPass_loop.simps)
           (use False Some lr in \<open>auto simp: Let_def\<close>)
      show ?thesis
        unfolding eq
        using "1.IH"(2) [OF Some lr [symmetric] refl False] n process_line_inv by blast
    qed
  qed
qed

lemma firstPass_entries_relocated:
  "list_all (\<lambda>s. sym_type s = SYMBOL_ENTRY \<longrightarrow> MEMORY_START \<le> sym_address s)
     (fp_symTab (firstPass am))"
proof -
  define st where "st = firstPass_loop am
     \<lparr>symTab = [], temp_i_head = [], temp_d_head = [], IC = MEMORY_START, DC = 0,
      g_has_error = False, lineNumber = 0\<rparr>"
  have "fp_inv st" unfolding st_def by (rule firstPass_loop_inv) (simp add: fp_inv_def)
  then have ic: "MEMORY_START \<le> IC st" and a: "list_all (\<lambda>s. 0 \<le> sym_address s) (symTab st)"
    by (simp_all add: fp_inv_def)
  have "list_all (\<lambda>s. sym_type s = SYMBOL_ENTRY \<longrightarrow> MEMORY_START \<le> sym_address s)
          (updateDataSymbolsAddresses (symTab st) (IC st))"
    using a ic by (auto simp: updateDataSymbolsAddresses_def list_all_iff)
  then show ?thesis by (simp add: firstPass_def Let_def st_def [symmetric])
qed

text \<open>
  The second pass changes only the usage lists of the symbols, so the test
  \<open>address == 0\<close> of its last loop finds nothing in a table that comes from the first pass.
\<close>

lemma sym_keys_update:
  "sym_type y = sym_type (tab ! i) \<Longrightarrow> sym_address y = sym_address (tab ! i)
   \<Longrightarrow> sym_keys (tab[i := y]) = sym_keys tab"
  by (cases "i < length tab") (simp_all add: sym_keys_def map_update list_update_same_conv list_update_beyond)

lemma addExternalUsage_keys: "sym_keys (fst (addExternalUsage tab i a g)) = sym_keys tab"
  by (simp add: addExternalUsage_def Let_def sym_keys_update)

lemma encode_label_operand_Inl:
  "encode_label_operand mode operand inst tab g idx = Inl (inst1, tab1)
   \<Longrightarrow> sym_keys tab1 = sym_keys tab"
  unfolding encode_label_operand_def Let_def
  by (auto simp: addExternalUsage_keys split: option.splits prod.splits if_splits)

lemma encode_label_operand_Inr:
  "encode_label_operand mode operand inst tab g idx = Inr (inst1, tab1, g1, idx1)
   \<Longrightarrow> sym_keys tab1 = sym_keys tab"
  unfolding encode_label_operand_def Let_def
  by (auto simp: addExternalUsage_keys split: option.splits prod.splits if_splits)

lemma encode_operand1_Inl:
  "encode_operand1 mode inst tab g = Inl (inst1, tab1) \<Longrightarrow> sym_keys tab1 = sym_keys tab"
  unfolding encode_operand1_def Let_def
  by (auto split: if_splits sum.splits dest: encode_label_operand_Inl)

lemma encode_operand1_Inr:
  "encode_operand1 mode inst tab g = Inr (inst1, tab1, g1, idx1, shared)
   \<Longrightarrow> sym_keys tab1 = sym_keys tab"
  unfolding encode_operand1_def Let_def
  by (auto split: if_splits sum.splits dest: encode_label_operand_Inr)

lemma encode_operand2_Inl:
  "encode_operand2 inst tab g idx = Inl (inst1, tab1) \<Longrightarrow> sym_keys tab1 = sym_keys tab"
  unfolding encode_operand2_def Let_def
  by (auto split: if_splits dest: encode_label_operand_Inl)

lemma encode_operand2_Inr:
  "encode_operand2 inst tab g idx = Inr (inst1, tab1, g1, idx1)
   \<Longrightarrow> sym_keys tab1 = sym_keys tab"
  unfolding encode_operand2_def Let_def
  by (auto split: if_splits dest: encode_label_operand_Inr)

lemma encode_operand_words_keys:
  "sym_keys (fst (snd (encode_operand_words mode inst tab g))) = sym_keys tab"
proof (cases "encode_operand1 mode inst tab g")
  case (Inl stopped)
  then show ?thesis
    by (cases stopped) (auto simp: encode_operand_words_def dest: encode_operand1_Inl)
next
  case (Inr r)
  obtain inst3 tab3 g3 idx3 shared where r: "r = (inst3, tab3, g3, idx3, shared)"
    by (cases r)
  have k3: "sym_keys tab3 = sym_keys tab"
    using Inr r encode_operand1_Inr by blast
  show ?thesis
  proof (cases "num_operands inst3 = 2 \<and> \<not> shared")
    case True
    show ?thesis
    proof (cases "encode_operand2 inst3 tab3 g3 idx3")
      case (Inl stopped)
      then show ?thesis
        using True Inr r k3
        by (cases stopped) (auto simp: encode_operand_words_def dest: encode_operand2_Inl)
    next
      case (Inr r4)
      then show ?thesis
        using True \<open>encode_operand1 mode inst tab g = Inr r\<close> r k3
        by (cases r4) (auto simp: encode_operand_words_def Let_def dest: encode_operand2_Inr)
    qed
  next
    case False
    then show ?thesis
      using k3 Inr r by (auto simp: encode_operand_words_def Let_def)
  qed
qed

lemma encode_instruction_words_keys:
  "sym_keys (fst (snd (encode_instruction_words inst tab g))) = sym_keys tab"
  by (simp add: encode_instruction_words_def Let_def encode_operand_words_keys)

lemma encode_all_keys: "sym_keys (fst (snd (encode_all insts tab g))) = sym_keys tab"
proof (induction insts arbitrary: tab g)
  case Nil
  show ?case by simp
next
  case (Cons cur_inst rest)
  obtain i1 t1 g1 where e: "encode_instruction_words cur_inst tab g = (i1, t1, g1)"
    by (cases "encode_instruction_words cur_inst tab g")
  have k1: "sym_keys t1 = sym_keys tab"
    using encode_instruction_words_keys [where inst = cur_inst and tab = tab and g = g] e by simp
  obtain r2 t2 g2 where e2: "encode_all rest t1 g1 = (r2, t2, g2)"
    by (cases "encode_all rest t1 g1")
  have "sym_keys t2 = sym_keys t1"
    using Cons.IH [where tab = t1 and g = g1] e2 by simp
  then show ?case using k1 e e2 by simp
qed

lemma check_entries_keys:
  "list_all (\<lambda>k. fst k = SYMBOL_ENTRY \<longrightarrow> snd k \<noteq> 0) (sym_keys tab) \<Longrightarrow> check_entries tab g = g"
  by (induction tab arbitrary: g) (auto simp: sym_keys_def)

lemma firstPass_keys:
  "list_all (\<lambda>k. fst k = SYMBOL_ENTRY \<longrightarrow> snd k \<noteq> 0) (sym_keys (fp_symTab (firstPass am)))"
  using firstPass_entries_relocated [of am]
  by (auto simp: sym_keys_def list_all_iff MEMORY_START_def)

lemma entry_check_never_fires:
  "secondPass insts (fp_symTab (firstPass am)) g
   = (case encode_all insts (fp_symTab (firstPass am)) g of
        (instructions, tab1, g1) \<Rightarrow> (\<not> g1, instructions, tab1, g1))"
proof -
  obtain instructions tab1 g1
    where e: "encode_all insts (fp_symTab (firstPass am)) g = (instructions, tab1, g1)"
    by (cases "encode_all insts (fp_symTab (firstPass am)) g")
  have "sym_keys tab1 = sym_keys (fp_symTab (firstPass am))"
    using encode_all_keys [where insts = insts and tab = "fp_symTab (firstPass am)" and g = g] e by simp
  then have "check_entries tab1 g1 = g1"
    using firstPass_keys [of am] check_entries_keys by simp
  then show ?thesis by (simp add: secondPass_def e)
qed

end
